theory Spec2Isabelle
  imports Complex_Main "HOL-Library.Word" "HOL-Library.Multiset"
begin

section \<open>The peasoup multi-GPU pipeline driver (src/pipeline_multi.cpp)\<close>

text \<open>
  The file embeds the orchestrator \<^verbatim>\<open>pipeline_multi.cpp\<close>: the work dispenser
  \<^verbatim>\<open>DMDispenser\<close>, the per-accelerator driver \<^verbatim>\<open>Worker::start\<close> and the part of
  \<^verbatim>\<open>main\<close> that selects the transform length and merges the workers' candidates.

  Conventions of the embedding.
  \<^item> A C \<^verbatim>\<open>float\<close> is a \<^typ>\<open>real\<close>: rounding, infinities and NaN are not modelled, and the
    theorems below are about which values flow where, not about floating-point error.
  \<^item> \<^verbatim>\<open>unsigned int\<close> sizes are \<^typ>\<open>nat\<close> where the code only compares and halves them,
    and \<^typ>\<open>32 word\<close> where a value is stored from the command line.
  \<^item> Printing under \<^verbatim>\<open>args.verbose\<close> has no effect on the data and is left out.
  \<^item> The transforms that the driver calls but that live in other files of the repository
    (\<^verbatim>\<open>transforms/*.hpp\<close>, \<^verbatim>\<open>utils/*.hpp\<close>, \<^verbatim>\<open>data_types/*.hpp\<close>) are either parameters
    of the model (record \<open>ext\<close>) or definitions modelled from the specification; each of
    the latter says so in its comment.
\<close>

subsection \<open>DMDispenser\<close>

text \<open>
  The progress bar is an object of another file; its three calls are recorded in a log.
\<close>

datatype progress_call = Progress_start | Progress_set real | Progress_stop

text \<open>
  \<^verbatim>\<open>trials.get_count()\<close> is the number of DM trials; \<open>dm_idx\<close> and \<open>count\<close> are the
  C \<^verbatim>\<open>int\<close> members. The cursor is an \<^typ>\<open>int\<close>; the theorem on the dispenser below shows that
  it stays between 0 and the trial count, so that \<^verbatim>\<open>dm_idx++\<close> cannot overflow when the
  trial count fits an \<^verbatim>\<open>int\<close>.
\<close>

record DMDispenser =
  trials_count :: nat
  dm_idx :: int
  count :: int
  use_progress_bar :: bool
  progress :: "progress_call list"

definition DMDispenser_new :: "nat \<Rightarrow> DMDispenser" where
  "DMDispenser_new n =
     \<lparr>trials_count = n, dm_idx = 0, count = int n, use_progress_bar = False, progress = []\<rparr>"

definition enable_progress_bar :: "DMDispenser \<Rightarrow> DMDispenser" where
  "enable_progress_bar d = d\<lparr>use_progress_bar := True\<rparr>"

text \<open>
  One call of \<^verbatim>\<open>get_dm_trial_idx\<close>. The body runs between \<^verbatim>\<open>pthread_mutex_lock\<close> and
  \<^verbatim>\<open>pthread_mutex_unlock\<close> on the dispenser's only mutex, so concurrent calls are
  serialised: a call is one atomic step from the dispenser's state to the returned value
  and the next state, and a concurrent run is a sequence of such steps.
\<close>

definition get_dm_trial_idx :: "DMDispenser \<Rightarrow> int \<times> DMDispenser" where
  "get_dm_trial_idx d =
     (let d1 = (if dm_idx d = 0 then
                  (if use_progress_bar d then d\<lparr>progress := progress d @ [Progress_start]\<rparr>
                   else d)
                else d)
      in if dm_idx d1 \<ge> int (trials_count d1) then
           (- 1, if use_progress_bar d1 then d1\<lparr>progress := progress d1 @ [Progress_stop]\<rparr>
                 else d1)
         else
           (let d2 = (if use_progress_bar d1 then
                        d1\<lparr>progress := progress d1 @
                              [Progress_set (real_of_int (dm_idx d1) / real_of_int (count d1))]\<rparr>
                      else d1)
            in (dm_idx d2, d2\<lparr>dm_idx := dm_idx d2 + 1\<rparr>)))"

text \<open>The values returned by \<open>m\<close> successive calls, whoever makes them.\<close>

fun get_many :: "nat \<Rightarrow> DMDispenser \<Rightarrow> int list \<times> DMDispenser" where
  "get_many 0 d = ([], d)"
| "get_many (Suc m) d =
     (let (r, d1) = get_dm_trial_idx d; (rs, d2) = get_many m d1 in (r # rs, d2))"

subsection \<open>Data of the driver\<close>

text \<open>The members of \<^verbatim>\<open>CmdLineOptions\<close> that the driver reads after parsing.\<close>

record CmdLineOptions =
  zapfilename :: string
  max_num_threads :: int
  size_opt :: "32 word"
  nharmonics :: int
  min_snr :: real
  min_freq :: real
  max_freq :: real
  max_harm :: int
  freq_tol :: real
  progress_bar :: bool

text \<open>\<^verbatim>\<open>cufftComplex\<close> is a pair of floats, real part first.\<close>

type_synonym cufftComplex = "real \<times> real"

text \<open>
  \<^verbatim>\<open>DedispersedTimeSeries<unsigned char>\<close> and \<^verbatim>\<open>DispersionTrials<unsigned char>\<close>, with the
  accessors the driver calls; \<^verbatim>\<open>get_count()\<close> is the length of \<open>series\<close> and
  \<^verbatim>\<open>get_idx(ii, tim)\<close> reads \<open>series ! ii\<close>.
\<close>

record DedispersedTimeSeries =
  get_dm :: real
  get_data :: "8 word list"

record DispersionTrials =
  get_nsamps :: nat
  get_tsamp :: real
  series :: "DedispersedTimeSeries list"

definition get_count :: "DispersionTrials \<Rightarrow> nat" where
  "get_count trials = length (series trials)"

text \<open>
  Modelled from the spec: the class \<^verbatim>\<open>Candidate\<close> of \<^verbatim>\<open>data_types/candidates.hpp\<close> is missing.
  The spec's record is frequency, period, snr, dm, acceleration, harmonic index, DM trial
  index and optional scores; period and scores play no part in the driver and are left out.
\<close>

record Candidate =
  frequency :: real
  snr :: real
  dm :: real
  acceleration :: real
  harmonic_index :: nat
  dm_trial_idx :: int

subsection \<open>Numeric primitives and spectra\<close>

text \<open>
  Modelled from the spec: \<^verbatim>\<open>stats::mean\<close> of \<^verbatim>\<open>utils/stats.hpp\<close> is missing. It is the mean
  of the first \<open>n\<close> entries of a buffer. (For \<open>n = 0\<close> the C code divides by zero; the
  theorems that use the mean ask for \<open>0 < n\<close>.)
\<close>

definition stats_mean :: "real list \<Rightarrow> nat \<Rightarrow> real" where
  "stats_mean xs n = sum_list (take n xs) / real n"

text \<open>
  Modelled from the spec: \<^verbatim>\<open>stats::normalise\<close> of \<^verbatim>\<open>utils/stats.hpp\<close> is missing. The spec:
  "normalise(x, mu_scaled, sigma_scaled, n): subtract and divide in place", on the first
  \<open>n\<close> bins.
\<close>

definition normalise :: "real list \<Rightarrow> real \<Rightarrow> real \<Rightarrow> nat \<Rightarrow> real list" where
  "normalise xs mu sigma n = map (\<lambda>v. (v - mu) / sigma) (take n xs) @ drop n xs"

text \<open>
  Modelled from the spec: \<^verbatim>\<open>DeviceTimeSeries::fill\<close> of \<^verbatim>\<open>data_types/timeseries.hpp\<close> is
  missing. \<open>fill buf a b v\<close> stores \<open>v\<close> at the indices \<open>a \<le> i < b\<close> of the buffer.
\<close>

definition fill :: "real list \<Rightarrow> nat \<Rightarrow> nat \<Rightarrow> real \<Rightarrow> real list" where
  "fill buf a b v = map (\<lambda>i. if a \<le> i \<and> i < b then v else buf ! i) [0..<length buf]"

text \<open>
  Modelled from the spec: \<^verbatim>\<open>ReusableDeviceTimeSeries::copy_from_host\<close> is missing. The spec
  says "copy TimeSeries i to device": the samples are converted to float and stored from
  index 0, as many as the device buffer holds; the rest of the buffer keeps its content.
\<close>

definition copy_from_host :: "real list \<Rightarrow> DedispersedTimeSeries \<Rightarrow> real list" where
  "copy_from_host buf tim =
     map (\<lambda>i. if i < length (get_data tim) then real (unat (get_data tim ! i)) else buf ! i)
       [0..<length buf]"

text \<open>
  Modelled from the spec: \<^verbatim>\<open>SpectrumFormer\<close> of \<^verbatim>\<open>transforms/spectrumformer.hpp\<close> is missing.
  The spec: "form(z): P[k] = |z[k]|^2" and the interpolated spectrum
  "bin k = max(|z_k|^2, 1/2 (|z_k|^2 + |z_{k+1}|^2))". The last bin has no right neighbour;
  its neighbour's power counts as 0 here, which leaves the bin at \<open>|z_k|^2\<close>.
\<close>

definition amp_sq :: "cufftComplex \<Rightarrow> real" where
  "amp_sq z = fst z * fst z + snd z * snd z"

definition form :: "cufftComplex list \<Rightarrow> real list" where
  "form zs = map amp_sq zs"

definition form_interpolated :: "cufftComplex list \<Rightarrow> real list" where
  "form_interpolated zs =
     map (\<lambda>k. max (amp_sq (zs ! k))
                  ((amp_sq (zs ! k) + (if Suc k < length zs then amp_sq (zs ! Suc k) else 0)) / 2))
       [0..<length zs]"

text \<open>
  Modelled from the spec: \<^verbatim>\<open>HarmonicFolder::fold\<close> of \<^verbatim>\<open>transforms/harmonicfolder.hpp\<close> is
  missing. The spec: "For h = 0..H-1 and factor f = 2^(h+1):
  sum_h[k] = Sum_{j=0..f-1} P[round(k j/f)]", with nearest-bin stretching. The stretched
  index never exceeds \<open>k\<close>, so every read is inside the spectrum.
\<close>

definition nearest_bin :: "nat \<Rightarrow> nat \<Rightarrow> nat \<Rightarrow> nat" where
  "nearest_bin k j f = nat (round (real k * real j / real f))"

definition harmonic_sum :: "real list \<Rightarrow> nat \<Rightarrow> real list" where
  "harmonic_sum P h =
     map (\<lambda>k. \<Sum>j\<leftarrow>[0..<2 ^ (h + 1)]. P ! nearest_bin k j (2 ^ (h + 1))) [0..<length P]"

definition fold_sums :: "real list \<Rightarrow> nat \<Rightarrow> real list list" where
  "fold_sums P H = map (harmonic_sum P) [0..<H]"

subsection \<open>Distillers\<close>

text \<open>
  Modelled from the spec: \<^verbatim>\<open>transforms/distiller.hpp\<close> is missing. The spec's rule, for every
  distiller, is pairwise: "For each candidate c, examine every other candidate c' [related
  to it]. If such a relation exists, keep the higher-SNR one; mark the other as subsumed."
  A candidate is subsumed when a candidate of the list related to it, in either direction,
  has a strictly higher SNR; the output is the input without the subsumed candidates.
\<close>

definition subsumed :: "(Candidate \<Rightarrow> Candidate \<Rightarrow> bool) \<Rightarrow> Candidate list \<Rightarrow> Candidate \<Rightarrow> bool" where
  "subsumed related S c = (\<exists>c' \<in> set S. (related c c' \<or> related c' c) \<and> snr c < snr c')"

definition distill :: "(Candidate \<Rightarrow> Candidate \<Rightarrow> bool) \<Rightarrow> Candidate list \<Rightarrow> Candidate list" where
  "distill related S = filter (\<lambda>c. \<not> subsumed related S c) S"

text \<open>
  The constructor arguments, in the order of the calls in the driver:
  \<^verbatim>\<open>HarmonicDistiller(freq_tol, max_harm, flag [, flag])\<close> (the worker passes three
  arguments, main four),
  \<^verbatim>\<open>AccelerationDistiller(tobs, freq_tol, flag)\<close> and \<^verbatim>\<open>DMDistiller(freq_tol, flag)\<close>.
\<close>

record HarmonicDistiller =
  hd_tol :: real
  hd_max_harm :: int
  hd_keys :: bool
  hd_arg4 :: "bool option"

record AccelerationDistiller =
  ad_tobs :: real
  ad_tol :: real
  ad_flag :: bool

record DMDistiller =
  dd_tol :: real
  dd_flag :: bool

text \<open>
  Modelled from the spec: the three relations. Harmonic: "|f_c' - n f_c/m| / f_c < freq_tol
  for integer n,m <= max_harm", on frequency only for the pass inside a DM trial and with
  DM and acceleration as further keys for the final pass, "controlled by a flag" (the
  third constructor argument: false in the worker, true in main). Acceleration: "their
  frequencies agree to freq_tol AND their DMs are equal". DM: "their frequencies agree to
  freq_tol". The tolerance is relative. The other constructor arguments (the fourth of the
  harmonic distiller, \<open>tobs\<close>, the flags of the other two) do not occur in the spec's rules.
\<close>

definition harmonic_related :: "HarmonicDistiller \<Rightarrow> Candidate \<Rightarrow> Candidate \<Rightarrow> bool" where
  "harmonic_related hdist c c' =
     ((\<exists>n \<in> set [1..hd_max_harm hdist]. \<exists>m \<in> set [1..hd_max_harm hdist].
         \<bar>frequency c' - real_of_int n * frequency c / real_of_int m\<bar> / frequency c < hd_tol hdist)
      \<and> (hd_keys hdist \<longrightarrow> dm c = dm c' \<and> acceleration c = acceleration c'))"

definition acceleration_related :: "AccelerationDistiller \<Rightarrow> Candidate \<Rightarrow> Candidate \<Rightarrow> bool" where
  "acceleration_related ad c c' =
     (\<bar>frequency c' - frequency c\<bar> / frequency c < ad_tol ad \<and> dm c = dm c')"

definition dm_related :: "DMDistiller \<Rightarrow> Candidate \<Rightarrow> Candidate \<Rightarrow> bool" where
  "dm_related dd c c' = (\<bar>frequency c' - frequency c\<bar> / frequency c < dd_tol dd)"

definition HarmonicDistiller_distill :: "HarmonicDistiller \<Rightarrow> Candidate list \<Rightarrow> Candidate list" where
  "HarmonicDistiller_distill hdist = distill (harmonic_related hdist)"

definition AccelerationDistiller_distill :: "AccelerationDistiller \<Rightarrow> Candidate list \<Rightarrow> Candidate list" where
  "AccelerationDistiller_distill ad = distill (acceleration_related ad)"

definition DMDistiller_distill :: "DMDistiller \<Rightarrow> Candidate list \<Rightarrow> Candidate list" where
  "DMDistiller_distill dd = distill (dm_related dd)"



subsection \<open>The transforms the worker calls\<close>

text \<open>
  The transforms of other files that the spec does not fix to a formula are parameters:
  the two FFTs, the dereddener's running median and division, the birdie zapper built
  from a zap file, \<^verbatim>\<open>stats::stats\<close> (returning mean, rms and standard deviation), the
  resampler, the acceleration plan and the peak finder on one spectrum and on the
  harmonic sums. A peak is a frequency, an SNR and a harmonic index.
\<close>

type_synonym peak = "real \<times> real \<times> nat"

record PeakFinder =
  pf_min_snr :: real
  pf_min_freq :: real
  pf_max_freq :: real

record ext =
  fft_r2c :: "real list \<Rightarrow> cufftComplex list"
  fft_c2r :: "cufftComplex list \<Rightarrow> real list"
  calculate_median :: "real list \<Rightarrow> real list"
  deredden :: "real list \<Rightarrow> cufftComplex list \<Rightarrow> cufftComplex list"
  zap :: "string \<Rightarrow> cufftComplex list \<Rightarrow> cufftComplex list"
  stats :: "real list \<Rightarrow> nat \<Rightarrow> real \<times> real \<times> real"
  resample :: "real list \<Rightarrow> nat \<Rightarrow> real \<Rightarrow> real list"
  generate_accel_list :: "real \<Rightarrow> real list"
  find_candidates :: "PeakFinder \<Rightarrow> real \<Rightarrow> real list \<Rightarrow> peak list"
  find_candidates_sums :: "PeakFinder \<Rightarrow> real \<Rightarrow> real list list \<Rightarrow> peak list"

text \<open>
  Modelled from the spec: \<^verbatim>\<open>SpectrumCandidates\<close> of \<^verbatim>\<open>data_types/candidates.hpp\<close> is missing.
  It is built from the DM, the DM trial index and the acceleration of the trial, and the
  spec has the peak finder "producing Candidates tagged with DM_i, i, a, h".
\<close>

definition SpectrumCandidates :: "real \<Rightarrow> int \<Rightarrow> real \<Rightarrow> peak list \<Rightarrow> Candidate list" where
  "SpectrumCandidates d idx a ps =
     map (\<lambda>(f, s, h). \<lparr>frequency = f, snr = s, dm = d, acceleration = a,
                       harmonic_index = h, dm_trial_idx = idx\<rparr>) ps"

subsection \<open>Worker\<close>

text \<open>
  \<^verbatim>\<open>Zapper* bzap\<close> is declared without a value. A pointer is uninitialised, points to an
  object, or has been deleted; using it in the first or the last state is an error.
\<close>

datatype 'a pointer = Uninitialised | Pointer 'a | Deleted

datatype Zapper = Zapper string

datatype error = Uninitialised_pointer | Dangling_pointer | Trial_index_out_of_range

text \<open>
  The calls of \<^verbatim>\<open>Worker::start\<close>, logged in the order they are made. A call carries the
  values of its scalar arguments; \<open>Call_r2c\<close>, \<open>Call_stats\<close> and \<open>Call_normalise\<close> also
  carry the content of the buffer they read, as it is when the call is made.
\<close>

datatype call =
    Call_new_Zapper string
  | Call_get_idx int
  | Call_copy_from_host
  | Call_mean nat
  | Call_fill nat nat real
  | Call_generate_accel_list real
  | Call_r2c "real list"
  | Call_form
  | Call_calculate_median
  | Call_deredden
  | Call_zap
  | Call_form_interpolated
  | Call_stats "real list" nat
  | Call_c2r
  | Call_resample real
  | Call_normalise "real list" real real nat
  | Call_fold
  | Call_find_candidates
  | Call_distill_harmonics
  | Call_distill_accelerations
  | Call_delete_Zapper

text \<open>
  The members of \<^verbatim>\<open>Worker\<close> that \<^verbatim>\<open>start\<close> uses, the locals of \<^verbatim>\<open>start\<close>, and the log.
  (\<open>worker_size\<close> is the member \<^verbatim>\<open>size\<close> and \<open>harm_sums\<close> the local \<^verbatim>\<open>sums\<close>.)
\<close>

record Worker =
  worker_size :: nat
  padding :: bool
  tobs :: real
  bin_width :: real
  d_fseries :: "cufftComplex list"
  tim :: DedispersedTimeSeries
  d_tim :: "real list"
  d_tim_r :: "real list"
  pspec :: "real list"
  bzap :: "Zapper pointer"
  rednoise :: "real list"
  cand_finder :: PeakFinder
  harm_sums :: "real list list"
  acc_list :: "real list"
  harm_finder :: HarmonicDistiller
  acc_still :: AccelerationDistiller
  mean :: real
  std :: real
  rms :: real
  padding_mean :: real
  accel_trial_cands :: "Candidate list"
  dm_trial_cands :: "Candidate list"
  calls :: "call list"

definition logc :: "call \<Rightarrow> Worker \<Rightarrow> Worker" where
  "logc c w = w\<lparr>calls := calls w @ [c]\<rparr>"

text \<open>
  Lines 126 to 158: the start of \<^verbatim>\<open>Worker::start\<close>, before the loop. \<open>u\<close> holds what the
  uninitialised locals and the fresh device buffers happen to contain; the buffers
  \<open>d_tim\<close> and \<open>d_tim_r\<close> are allocated with \<open>size\<close> samples and \<open>d_fseries\<close> and \<open>pspec\<close>
  with \<open>size/2+1\<close> bins, which the theorems that depend on a length ask of \<open>u\<close>.
\<close>

definition Worker_setup :: "DispersionTrials \<Rightarrow> CmdLineOptions \<Rightarrow> nat \<Rightarrow> Worker \<Rightarrow> Worker" where
  "Worker_setup trials args S u =
     (let w = u\<lparr>worker_size := S,
                padding := (S > get_nsamps trials),
                tobs := real S * get_tsamp trials,
                bin_width := 1 / (real S * get_tsamp trials),
                bzap := Uninitialised,
                cand_finder := \<lparr>pf_min_snr = min_snr args, pf_min_freq = min_freq args,
                                pf_max_freq = max_freq args\<rparr>,
                harm_finder := \<lparr>hd_tol = freq_tol args, hd_max_harm = max_harm args,
                                hd_keys = False, hd_arg4 = None\<rparr>,
                acc_still := \<lparr>ad_tobs = real S * get_tsamp trials, ad_tol = freq_tol args,
                              ad_flag = True\<rparr>,
                accel_trial_cands := [],
                dm_trial_cands := [],
                calls := []\<rparr>
      in if zapfilename args \<noteq> [] then
           logc (Call_new_Zapper (zapfilename args)) (w\<lparr>bzap := Pointer (Zapper (zapfilename args))\<rparr>)
         else w)"

text \<open>Lines 164 to 173: read the trial, copy it to the device and pad.\<close>

definition load_trial :: "DispersionTrials \<Rightarrow> nat \<Rightarrow> Worker \<Rightarrow> Worker" where
  "load_trial trials i w =
     (let w1 = logc (Call_get_idx (int i)) (w\<lparr>tim := series trials ! i\<rparr>);
          w2 = logc Call_copy_from_host (w1\<lparr>d_tim := copy_from_host (d_tim w1) (tim w1)\<rparr>)
      in if padding w2 then
           (let w3 = logc (Call_mean (get_nsamps trials))
                       (w2\<lparr>padding_mean := stats_mean (d_tim w2) (get_nsamps trials)\<rparr>)
            in logc (Call_fill (get_nsamps trials) (length (d_tim w3)) (padding_mean w3))
                 (w3\<lparr>d_tim := fill (d_tim w3) (get_nsamps trials) (length (d_tim w3))
                                 (padding_mean w3)\<rparr>))
         else w2)"

text \<open>Lines 177 to 193: acceleration list, forward FFT, power spectrum, dereddening.\<close>

definition deredden_trial :: "ext \<Rightarrow> Worker \<Rightarrow> Worker" where
  "deredden_trial ext w =
     (let w1 = logc (Call_generate_accel_list (get_dm (tim w)))
                 (w\<lparr>acc_list := generate_accel_list ext (get_dm (tim w))\<rparr>);
          w2 = logc (Call_r2c (d_tim w1)) (w1\<lparr>d_fseries := fft_r2c ext (d_tim w1)\<rparr>);
          w3 = logc Call_form (w2\<lparr>pspec := form (d_fseries w2)\<rparr>);
          w4 = logc Call_calculate_median (w3\<lparr>rednoise := calculate_median ext (pspec w3)\<rparr>)
      in logc Call_deredden (w4\<lparr>d_fseries := deredden ext (rednoise w4) (d_fseries w4)\<rparr>))"

text \<open>Lines 195 to 199: the zapper is used through the pointer.\<close>

definition zap_trial :: "ext \<Rightarrow> CmdLineOptions \<Rightarrow> Worker \<Rightarrow> error + Worker" where
  "zap_trial ext args w =
     (if zapfilename args \<noteq> [] then
        (case bzap w of
           Uninitialised \<Rightarrow> Inl Uninitialised_pointer
         | Deleted \<Rightarrow> Inl Dangling_pointer
         | Pointer (Zapper f) \<Rightarrow> Inr (logc Call_zap (w\<lparr>d_fseries := zap ext f (d_fseries w)\<rparr>)))
      else Inr w)"

text \<open>Lines 201 to 211: interpolated spectrum, statistics, inverse FFT.\<close>

definition stats_trial :: "ext \<Rightarrow> Worker \<Rightarrow> Worker" where
  "stats_trial ext w =
     (let S = worker_size w;
          w1 = logc Call_form_interpolated (w\<lparr>pspec := form_interpolated (d_fseries w)\<rparr>);
          w2 = logc (Call_stats (pspec w1) (S div 2 + 1))
                 (case stats ext (pspec w1) (S div 2 + 1) of
                    (m, r, s) \<Rightarrow> w1\<lparr>mean := m, rms := r, std := s\<rparr>)
      in logc Call_c2r (w2\<lparr>d_tim := fft_c2r ext (d_fseries w2)\<rparr>))"

text \<open>
  Lines 215 to 244: one acceleration trial of DM trial \<open>idx\<close>. The peak finder is called
  twice, on \<open>pspec\<close> and on the harmonic sums, and both calls add to \<open>trial_cands\<close>.
\<close>

definition accel_trial :: "ext \<Rightarrow> CmdLineOptions \<Rightarrow> int \<Rightarrow> Worker \<Rightarrow> real \<Rightarrow> Worker" where
  "accel_trial ext args idx w a =
     (let S = worker_size w;
          w1 = logc (Call_resample a) (w\<lparr>d_tim_r := resample ext (d_tim w) S a\<rparr>);
          w2 = logc (Call_r2c (d_tim_r w1)) (w1\<lparr>d_fseries := fft_r2c ext (d_tim_r w1)\<rparr>);
          w3 = logc Call_form_interpolated (w2\<lparr>pspec := form_interpolated (d_fseries w2)\<rparr>);
          w4 = logc (Call_normalise (pspec w3) (mean w3 * real S) (std w3 * real S) (S div 2 + 1))
                 (w3\<lparr>pspec := normalise (pspec w3) (mean w3 * real S) (std w3 * real S)
                                  (S div 2 + 1)\<rparr>);
          w5 = logc Call_fold (w4\<lparr>harm_sums := fold_sums (pspec w4) (nat (nharmonics args))\<rparr>);
          trial_cands = SpectrumCandidates (get_dm (tim w5)) idx a
                          (find_candidates ext (cand_finder w5) (bin_width w5) (pspec w5) @
                           find_candidates_sums ext (cand_finder w5) (bin_width w5) (harm_sums w5));
          w6 = logc Call_find_candidates (logc Call_find_candidates w5)
      in logc Call_distill_harmonics
           (w6\<lparr>accel_trial_cands := accel_trial_cands w6 @
                  HarmonicDistiller_distill (harm_finder w6) trial_cands\<rparr>))"

text \<open>
  Lines 201 to 248: the search of the cleaned DM trial \<open>idx\<close>. Then lines 161 to 249: the
  body of the loop for an index \<open>idx\<close> other than -1 that the dispenser returned.
  Reading a trial outside the collection is an error.
\<close>

definition search_trial :: "ext \<Rightarrow> CmdLineOptions \<Rightarrow> int \<Rightarrow> Worker \<Rightarrow> Worker" where
  "search_trial ext args idx w =
     (let w2 = stats_trial ext w;
          w3 = foldl (accel_trial ext args idx) (w2\<lparr>accel_trial_cands := []\<rparr>) (acc_list w2)
      in logc Call_distill_accelerations
           (w3\<lparr>dm_trial_cands := dm_trial_cands w3 @
                  AccelerationDistiller_distill (acc_still w3) (accel_trial_cands w3)\<rparr>))"

definition process_dm :: "ext \<Rightarrow> CmdLineOptions \<Rightarrow> DispersionTrials \<Rightarrow> int \<Rightarrow> Worker \<Rightarrow> error + Worker" where
  "process_dm ext args trials idx w =
     (if 0 \<le> idx \<and> nat idx < get_count trials then
        (case zap_trial ext args (deredden_trial ext (load_trial trials (nat idx) w)) of
           Inl e \<Rightarrow> Inl e
         | Inr w1 \<Rightarrow> Inr (search_trial ext args idx w1))
      else Inl Trial_index_out_of_range)"

text \<open>Lines 251 and 252, after the loop.\<close>

definition delete_zapper :: "CmdLineOptions \<Rightarrow> Worker \<Rightarrow> error + Worker" where
  "delete_zapper args w =
     (if zapfilename args \<noteq> [] then
        (case bzap w of
           Uninitialised \<Rightarrow> Inl Uninitialised_pointer
         | Deleted \<Rightarrow> Inl Dangling_pointer
         | Pointer z \<Rightarrow> Inr (logc Call_delete_Zapper (w\<lparr>bzap := Deleted\<rparr>)))
      else Inr w)"

subsection \<open>Threads and main\<close>

text \<open>
  A thread runs \<^verbatim>\<open>Worker::start\<close>. The workers share the dispenser and the read-only
  trials and options, and nothing else, so a run of the threads is a sequence of loop
  iterations, each one a call of the dispenser by some thread followed by that thread's
  work on its own state. A schedule lists the threads in the order of their calls.
\<close>

datatype status = Running | Returned | Faulted error

record thread =
  status :: status
  worker :: Worker

definition thread_step ::
  "ext \<Rightarrow> CmdLineOptions \<Rightarrow> DispersionTrials \<Rightarrow> DMDispenser \<Rightarrow> thread \<Rightarrow> DMDispenser \<times> thread" where
  "thread_step ext args trials d t =
     (if status t = Running then
        (let (ii, d1) = get_dm_trial_idx d in
         if ii = - 1 then
           (d1, case delete_zapper args (worker t) of
                  Inl e \<Rightarrow> t\<lparr>status := Faulted e\<rparr>
                | Inr w \<Rightarrow> \<lparr>status = Returned, worker = w\<rparr>)
         else
           (d1, case process_dm ext args trials ii (worker t) of
                  Inl e \<Rightarrow> t\<lparr>status := Faulted e\<rparr>
                | Inr w \<Rightarrow> t\<lparr>worker := w\<rparr>))
      else (d, t))"

record system =
  dispenser :: DMDispenser
  threads :: "thread list"

definition system_step :: "ext \<Rightarrow> CmdLineOptions \<Rightarrow> DispersionTrials \<Rightarrow> system \<Rightarrow> nat \<Rightarrow> system" where
  "system_step ext args trials sys k =
     (if k < length (threads sys) then
        (let (d, t) = thread_step ext args trials (dispenser sys) (threads sys ! k)
         in \<lparr>dispenser = d, threads = (threads sys)[k := t]\<rparr>)
      else sys)"

definition run :: "ext \<Rightarrow> CmdLineOptions \<Rightarrow> DispersionTrials \<Rightarrow> system \<Rightarrow> nat list \<Rightarrow> system" where
  "run ext args trials sys schedule = foldl (system_step ext args trials) sys schedule"

text \<open>
  Modelled from the spec: \<^verbatim>\<open>Utils::prev_power_of_two\<close> of \<^verbatim>\<open>utils/utils.hpp\<close> is missing. The
  spec: "previous power of two <= nsamps", the largest power of two that is at most the
  argument. (There is none for 0; the theorem about it asks for a positive argument.)
\<close>

fun largest_power_of_two :: "nat \<Rightarrow> nat" where
  "largest_power_of_two n = (if n < 2 then 1 else 2 * largest_power_of_two (n div 2))"

definition prev_power_of_two :: "32 word \<Rightarrow> 32 word" where
  "prev_power_of_two n = of_nat (largest_power_of_two (unat n))"

text \<open>
  Lines 441 to 446 of \<^verbatim>\<open>main\<close>: the transform length. \<open>size_opt\<close> is the member
  \<^verbatim>\<open>args.size\<close>, an \<^verbatim>\<open>unsigned int\<close>, as it stands after parsing.
\<close>

definition select_size :: "CmdLineOptions \<Rightarrow> 32 word \<Rightarrow> 32 word" where
  "select_size args nsamps =
     (if size_opt args = 0 then prev_power_of_two nsamps else size_opt args)"

text \<open>Lines 394 and 395: the number of threads, from \<^verbatim>\<open>Utils::gpu_count()\<close>.\<close>

definition nthreads :: "int \<Rightarrow> CmdLineOptions \<Rightarrow> int" where
  "nthreads gpu_count args = max 1 (min gpu_count (max_num_threads args))"

text \<open>
  Lines 456 to 465: the dispenser and one worker per thread, each with its own
  uninitialised memory; the prologue of \<^verbatim>\<open>start\<close> runs when the thread starts.
\<close>

definition launch :: "DispersionTrials \<Rightarrow> CmdLineOptions \<Rightarrow> nat \<Rightarrow> Worker list \<Rightarrow> system" where
  "launch trials args S us =
     \<lparr>dispenser = (if progress_bar args then enable_progress_bar (DMDispenser_new (get_count trials))
                   else DMDispenser_new (get_count trials)),
      threads = map (\<lambda>u. \<lparr>status = Running, worker = Worker_setup trials args S u\<rparr>) us\<rparr>"

text \<open>
  Lines 467 to 480: after the joins, the candidates of all workers are appended and
  distilled along DM and then along harmonics.
\<close>

definition collect :: "system \<Rightarrow> Candidate list" where
  "collect sys = concat (map (\<lambda>t. dm_trial_cands (worker t)) (threads sys))"

definition main_distill :: "CmdLineOptions \<Rightarrow> Candidate list \<Rightarrow> Candidate list" where
  "main_distill args cands =
     HarmonicDistiller_distill
       \<lparr>hd_tol = freq_tol args, hd_max_harm = max_harm args, hd_keys = True, hd_arg4 = Some False\<rparr>
       (DMDistiller_distill \<lparr>dd_tol = freq_tol args, dd_flag = True\<rparr> cands)"

subsection \<open>Runs of the dispenser\<close>

text \<open>
  The dispenser as \<^verbatim>\<open>main\<close> builds it for \<open>n\<close> trials, with or without the progress bar,
  the values its first \<open>m\<close> calls return and its cursor after \<open>i\<close> calls.
\<close>

definition fresh_dispenser :: "nat \<Rightarrow> bool \<Rightarrow> DMDispenser" where
  "fresh_dispenser n pb =
     (if pb then enable_progress_bar (DMDispenser_new n) else DMDispenser_new n)"

definition returned :: "nat \<Rightarrow> bool \<Rightarrow> nat \<Rightarrow> int list" where
  "returned n pb m = fst (get_many m (fresh_dispenser n pb))"

definition cursor_after :: "nat \<Rightarrow> bool \<Rightarrow> nat \<Rightarrow> int" where
  "cursor_after n pb i = dm_idx (snd (get_many i (fresh_dispenser n pb)))"

subsection \<open>The three distillers under one name\<close>

datatype distiller =
    Harmonic HarmonicDistiller
  | Acceleration AccelerationDistiller
  | DM DMDistiller

fun relation_of :: "distiller \<Rightarrow> Candidate \<Rightarrow> Candidate \<Rightarrow> bool" where
  "relation_of (Harmonic hdist) = harmonic_related hdist"
| "relation_of (Acceleration ad) = acceleration_related ad"
| "relation_of (DM dd) = dm_related dd"

fun distill_with :: "distiller \<Rightarrow> Candidate list \<Rightarrow> Candidate list" where
  "distill_with (Harmonic hdist) S = HarmonicDistiller_distill hdist S"
| "distill_with (Acceleration ad) S = AccelerationDistiller_distill ad S"
| "distill_with (DM dd) S = DMDistiller_distill dd S"

text \<open>A candidate with a frequency and an SNR, at DM 0 and acceleration 0, for examples.\<close>

definition cand :: "real \<Rightarrow> real \<Rightarrow> Candidate" where
  "cand f s =
     \<lparr>frequency = f, snr = s, dm = 0, acceleration = 0, harmonic_index = 0, dm_trial_idx = 0\<rparr>"

text \<open>The options at their defaults (no zap file, size 0), for examples.\<close>

definition args0 :: CmdLineOptions where
  "args0 = \<lparr>zapfilename = [], max_num_threads = 14, size_opt = 0, nharmonics = 4, min_snr = 9,
            min_freq = 1 / 10, max_freq = 1100, max_harm = 16, freq_tol = 1 / 10000,
            progress_bar = False\<rparr>"

subsection \<open>A small run, for examples\<close>

text \<open>
  Transforms of length 2: the two-point DFT and its unnormalised inverse, a flat median
  (dereddening divides by 1), an empty zap list, a resampler that leaves the series as
  it is (acceleration 0), the acceleration plan with the single trial 0, statistics that
  return the mean of the bins and, to stay rational, 0 and 1 for rms and standard
  deviation, and a peak finder that reports every bin at or above the SNR threshold
  whose frequency is inside the window.
\<close>

definition ext0 :: ext where
  "ext0 =
     \<lparr>fft_r2c = (\<lambda>xs. [(xs ! 0 + xs ! 1, 0), (xs ! 0 - xs ! 1, 0)]),
      fft_c2r = (\<lambda>zs. [fst (zs ! 0) + fst (zs ! 1), fst (zs ! 0) - fst (zs ! 1)]),
      calculate_median = (\<lambda>P. map (\<lambda>v. 1) P),
      deredden = (\<lambda>med zs. zs),
      zap = (\<lambda>f zs. zs),
      stats = (\<lambda>P n. (stats_mean P n, 0, 1)),
      resample = (\<lambda>xs S a. xs),
      generate_accel_list = (\<lambda>d. [0]),
      find_candidates =
        (\<lambda>pf bw P. map (\<lambda>k. (real k * bw, P ! k, 0))
                     (filter (\<lambda>k. pf_min_snr pf \<le> P ! k \<and> pf_min_freq pf \<le> real k * bw
                                   \<and> real k * bw \<le> pf_max_freq pf) [0..<length P])),
      find_candidates_sums = (\<lambda>pf bw Ps. [])\<rparr>"

text \<open>Two DM trials of two samples each, at DM 0 and DM 5.\<close>

definition trials0 :: DispersionTrials where
  "trials0 = \<lparr>get_nsamps = 2, get_tsamp = 1,
              series = [\<lparr>get_dm = 0, get_data = [1, 3]\<rparr>, \<lparr>get_dm = 5, get_data = [0, 4]\<rparr>]\<rparr>"

text \<open>What a worker's memory holds before the prologue of \<^verbatim>\<open>start\<close> has run.\<close>

definition u0 :: Worker where
  "u0 = \<lparr>worker_size = 0, padding = False, tobs = 0, bin_width = 0, d_fseries = [(0, 0), (0, 0)],
         tim = \<lparr>get_dm = 0, get_data = []\<rparr>, d_tim = [0, 0], d_tim_r = [0, 0], pspec = [0, 0],
         bzap = Uninitialised, rednoise = [0, 0],
         cand_finder = \<lparr>pf_min_snr = 0, pf_min_freq = 0, pf_max_freq = 0\<rparr>, harm_sums = [],
         acc_list = [],
         harm_finder = \<lparr>hd_tol = 0, hd_max_harm = 0, hd_keys = False, hd_arg4 = None\<rparr>,
         acc_still = \<lparr>ad_tobs = 0, ad_tol = 0, ad_flag = False\<rparr>,
         mean = 0, std = 0, rms = 0, padding_mean = 0, accel_trial_cands = [],
         dm_trial_cands = [], calls = []\<rparr>"

text \<open>One harmonic sum instead of four.\<close>

definition args1 :: CmdLineOptions where
  "args1 = args0\<lparr>nharmonics := 1\<rparr>"

text \<open>
  The worker of transform length 2 after lines 164 to 211 on DM trial 0 (no zap file, so
  lines 195 to 199 do nothing).
\<close>

definition cleaned0 :: Worker where
  "cleaned0 =
     stats_trial ext0 (deredden_trial ext0 (load_trial trials0 0 (Worker_setup trials0 args1 2 u0)))"

subsection \<open>Reading the log\<close>



fun is_zapper_use :: "call \<Rightarrow> bool" where
  "is_zapper_use Call_zap = True"
| "is_zapper_use Call_delete_Zapper = True"
| "is_zapper_use c = False"

text \<open>What a DM trial or a stage of it adds to the log of a worker.\<close>

definition logged :: "Worker \<Rightarrow> Worker \<Rightarrow> call list" where
  "logged w w' = drop (length (calls w)) (calls w')"

text \<open>One DM trial of a single sample at DM 0, for a transform longer than the data.\<close>

definition trials1 :: DispersionTrials where
  "trials1 = \<lparr>get_nsamps = 1, get_tsamp = 1, series = [\<lparr>get_dm = 0, get_data = [3]\<rparr>]\<rparr>"

text \<open>The calls of one acceleration trial, from the state before the loop.\<close>

definition accel_calls :: "ext \<Rightarrow> Worker \<Rightarrow> real \<Rightarrow> call list" where
  "accel_calls ext w a =
     [Call_resample a,
      Call_r2c (resample ext (d_tim w) (worker_size w) a),
      Call_form_interpolated,
      Call_normalise (form_interpolated (fft_r2c ext (resample ext (d_tim w) (worker_size w) a)))
        (mean w * real (worker_size w)) (std w * real (worker_size w)) (worker_size w div 2 + 1),
      Call_fold, Call_find_candidates, Call_find_candidates, Call_distill_harmonics]"

text \<open>Lines 164 to 193 together: the state in which the zapper, if any, is applied.\<close>

definition dereddened :: "ext \<Rightarrow> DispersionTrials \<Rightarrow> nat \<Rightarrow> Worker \<Rightarrow> Worker" where
  "dereddened ext trials i w = deredden_trial ext (load_trial trials i w)"

text \<open>The worker of the small run after its prologue, and after lines 164 to 193 on DM trial 0.\<close>

definition worker0 :: Worker where
  "worker0 = Worker_setup trials0 args1 2 u0"

definition dereddened0 :: Worker where
  "dereddened0 = dereddened ext0 trials0 0 worker0"

text \<open>The worker of transform length 2 on the one-sample trial, after its prologue.\<close>

definition worker1 :: Worker where
  "worker1 = Worker_setup trials1 args0 2 u0"

subsection \<open>Invariants of a run\<close>

text \<open>
  A candidate carries the tags of a DM trial of the collection: its index is in range,
  its DM is that of the trial, and its acceleration is in the plan for that DM.
\<close>

definition tagged :: "ext \<Rightarrow> DispersionTrials \<Rightarrow> Candidate \<Rightarrow> bool" where
  "tagged ext trials c =
     (0 \<le> dm_trial_idx c \<and> nat (dm_trial_idx c) < get_count trials
      \<and> dm c = get_dm (series trials ! nat (dm_trial_idx c))
      \<and> acceleration c \<in> set (generate_accel_list ext (dm c)))"

text \<open>The dispenser serves the trials of the collection and its cursor is not negative.\<close>

definition dispenser_ok :: "DispersionTrials \<Rightarrow> DMDispenser \<Rightarrow> bool" where
  "dispenser_ok trials d = (0 \<le> dm_idx d \<and> trials_count d = get_count trials)"

text \<open>
  The state of the zapper pointer of a thread: never set without a zap file; with one,
  set by the prologue and deleted when the thread returns.
\<close>

definition zapper_ok :: "CmdLineOptions \<Rightarrow> thread \<Rightarrow> bool" where
  "zapper_ok args t =
     ((\<forall>e. status t \<noteq> Faulted e)
      \<and> (zapfilename args = [] \<longrightarrow>
            bzap (worker t) = Uninitialised \<and> filter is_zapper_use (calls (worker t)) = [])
      \<and> (zapfilename args \<noteq> [] \<longrightarrow>
            (status t = Running \<longrightarrow> bzap (worker t) = Pointer (Zapper (zapfilename args)))
            \<and> (status t = Returned \<longrightarrow> bzap (worker t) = Deleted)))"

text \<open>
  A run of the small example with two threads: thread 1 takes DM trial 0, thread 0 takes
  DM trial 1, then both are told that no trial is left.
\<close>

definition system0 :: system where
  "system0 = run ext0 args1 trials0 (launch trials0 args1 2 [u0, u0]) [1, 0, 0, 1]"

text \<open>The same options with a zap file, and a run of one thread over both trials.\<close>

definition args2 :: CmdLineOptions where
  "args2 = args1\<lparr>zapfilename := ''birdies.txt''\<rparr>"

definition system2 :: system where
  "system2 = run ext0 args2 trials0 (launch trials0 args2 2 [u0]) [0, 0, 0]"

text \<open>A run of one thread on the one-sample trial, with four harmonic sums.\<close>

definition system1 :: system where
  "system1 = run ext0 args0 trials1 (launch trials1 args0 2 [u0]) [0, 0]"

text \<open>The candidate that the small run finds, in DM trial 1.\<close>

definition cand1 :: Candidate where
  "cand1 = \<lparr>frequency = 1 / 2, snr = 16, dm = 5, acceleration = 0, harmonic_index = 0,
            dm_trial_idx = 1\<rparr>"

definition dereddened1 :: Worker where
  "dereddened1 = dereddened ext0 trials0 1 worker0"


text \<open>
  The candidates that one acceleration trial at acceleration \<open>a\<close> adds to
  \<open>accel_trial_cands\<close>, from the state before the trial: the peaks of the normalised
  spectrum and of its harmonic sums, tagged and distilled along harmonics.
\<close>

definition accel_cands :: "ext \<Rightarrow> CmdLineOptions \<Rightarrow> int \<Rightarrow> Worker \<Rightarrow> real \<Rightarrow> Candidate list" where
  "accel_cands ext args idx w a =
     HarmonicDistiller_distill (harm_finder w)
       (SpectrumCandidates (get_dm (tim w)) idx a
          (find_candidates ext (cand_finder w) (bin_width w)
             (pspec (accel_trial ext args idx w a)) @
           find_candidates_sums ext (cand_finder w) (bin_width w)
             (harm_sums (accel_trial ext args idx w a))))"

section \<open>Properties\<close>

subsection \<open>The dispenser\<close>

lemma get_dm_trial_idx_fst:
  "fst (get_dm_trial_idx d) = (if dm_idx d \<ge> int (trials_count d) then - 1 else dm_idx d)"
  by (simp add: get_dm_trial_idx_def Let_def)

lemma get_dm_trial_idx_cursor:
  "dm_idx (snd (get_dm_trial_idx d)) =
     (if dm_idx d \<ge> int (trials_count d) then dm_idx d else dm_idx d + 1)"
  by (simp add: get_dm_trial_idx_def Let_def)

lemma get_dm_trial_idx_count:
  "trials_count (snd (get_dm_trial_idx d)) = trials_count d"
  by (simp add: get_dm_trial_idx_def Let_def)

lemma get_many_returns:
  "dm_idx d = int i \<Longrightarrow> trials_count d = n \<Longrightarrow> i \<le> n \<Longrightarrow>
   fst (get_many m d) = map int [i..<min (i + m) n] @ replicate (i + m - n) (- 1)"
proof (induction m arbitrary: d i)
  case 0
  then show ?case by simp
next
  case (Suc m)
  obtain r d1 where g: "get_dm_trial_idx d = (r, d1)" by (cases "get_dm_trial_idx d")
  have r: "r = (if i \<ge> n then - 1 else int i)"
    using get_dm_trial_idx_fst [of d] g Suc.prems by simp
  have c1: "trials_count d1 = n"
    using get_dm_trial_idx_count [of d] g Suc.prems by simp
  show ?case
  proof (cases "i < n")
    case True
    have i1: "dm_idx d1 = int (Suc i)"
      using get_dm_trial_idx_cursor [of d] g Suc.prems True by simp
    have "fst (get_many m d1) =
            map int [Suc i..<min (Suc i + m) n] @ replicate (Suc i + m - n) (- 1)"
      using Suc.IH [OF i1 c1] True by simp
    moreover have "[i..<min (i + Suc m) n] = i # [Suc i..<min (Suc i + m) n]"
      using True by (simp add: upt_conv_Cons)
    ultimately show ?thesis
      using g r True by (simp add: split_beta)
  next
    case False
    then have eq: "i = n" using Suc.prems by simp
    have i1: "dm_idx d1 = int i"
      using get_dm_trial_idx_cursor [of d] g Suc.prems False by simp
    have "fst (get_many m d1) = map int [i..<min (i + m) n] @ replicate (i + m - n) (- 1)"
      using Suc.IH [OF i1 c1] Suc.prems by simp
    then show ?thesis
      using g r eq by (simp add: split_beta)
  qed
qed

lemma get_many_cursor:
  "dm_idx d = int i \<Longrightarrow> i \<le> trials_count d \<Longrightarrow>
   dm_idx (snd (get_many m d)) = int (min (i + m) (trials_count d))"
proof (induction m arbitrary: d i)
  case 0
  then show ?case by simp
next
  case (Suc m)
  obtain r d1 where g: "get_dm_trial_idx d = (r, d1)" by (cases "get_dm_trial_idx d")
  have c1: "trials_count d1 = trials_count d"
    using get_dm_trial_idx_count [of d] g by simp
  show ?case
  proof (cases "i < trials_count d")
    case True
    have i1: "dm_idx d1 = int (Suc i)"
      using get_dm_trial_idx_cursor [of d] g Suc.prems True by simp
    show ?thesis
      using Suc.IH [OF i1] c1 True g by (simp add: split_beta)
  next
    case False
    have i1: "dm_idx d1 = int i"
      using get_dm_trial_idx_cursor [of d] g Suc.prems False by simp
    show ?thesis
      using Suc.IH [OF i1] c1 False Suc.prems g by (simp add: split_beta min_def)
  qed
qed

lemma fresh_dispenser_simps:
  "dm_idx (fresh_dispenser n pb) = 0" "trials_count (fresh_dispenser n pb) = n"
  by (simp_all add: fresh_dispenser_def DMDispenser_new_def enable_progress_bar_def)

lemma takeWhile_indices:
  "takeWhile (\<lambda>r. r \<noteq> - 1) (map int xs @ replicate k (- 1)) = map int xs"
  by (induction xs) (auto simp: takeWhile_replicate)

text \<open>
  C2. Whatever the number \<open>n\<close> of trials and whoever calls: once a call has returned -1
  (more than \<open>n\<close> calls were made), the values returned before the first -1 are the
  multiset of 0, ..., \<open>n - 1\<close>; call number \<open>i < n\<close> returns \<open>i\<close>; every call made when the
  cursor has reached \<open>n\<close> returns -1; and the cursor stays between 0 and \<open>n\<close>, so that the
  increment never leaves the range of the trial count.
\<close>

theorem dispenser_each_index_once:
  "(n < m \<longrightarrow> mset (takeWhile (\<lambda>r. r \<noteq> - 1) (returned n pb m)) = mset (map int [0..<n]))
   \<and> (\<forall>i<m. i < n \<longrightarrow> returned n pb m ! i = int i)
   \<and> (\<forall>i<m. int n \<le> cursor_after n pb i \<longrightarrow> returned n pb m ! i = - 1)
   \<and> (\<forall>i. 0 \<le> cursor_after n pb i \<and> cursor_after n pb i \<le> int n)"
proof -
  have rs: "returned n pb m = map int [0..<min m n] @ replicate (m - n) (- 1)"
    unfolding returned_def
    using get_many_returns [of "fresh_dispenser n pb" 0 n m] by (simp add: fresh_dispenser_simps)
  have cur: "cursor_after n pb i = int (min i n)" for i
    unfolding cursor_after_def
    using get_many_cursor [of "fresh_dispenser n pb" 0 i] by (simp add: fresh_dispenser_simps)
  have a: "n < m \<longrightarrow> mset (takeWhile (\<lambda>r. r \<noteq> - 1) (returned n pb m)) = mset (map int [0..<n])"
    by (simp add: rs takeWhile_indices min_def)
  have b: "\<forall>i<m. i < n \<longrightarrow> returned n pb m ! i = int i"
    by (simp add: rs nth_append)
  have c: "\<forall>i<m. int n \<le> cursor_after n pb i \<longrightarrow> returned n pb m ! i = - 1"
    by (auto simp: rs cur nth_append min_def)
  have d: "\<forall>i. 0 \<le> cursor_after n pb i \<and> cursor_after n pb i \<le> int n"
    by (simp add: cur)
  from a b c d show ?thesis by blast
qed

theorem dispenser_each_index_once_witness:
  "(2::nat) < 4 \<and> mset (takeWhile (\<lambda>r. r \<noteq> - 1) (returned 2 True 4)) = mset (map int [0..<2])
   \<and> returned 2 True 4 ! 1 = 1 \<and> returned 2 True 4 ! 3 = - 1
   \<and> cursor_after 2 True 3 = 2"
proof -
  have r: "returned 2 True 4 = [0, 1, - 1, - 1]"
    by (simp add: returned_def fresh_dispenser_def DMDispenser_new_def enable_progress_bar_def
        get_dm_trial_idx_def Let_def numeral_nat)
  have c: "cursor_after 2 True 3 = 2"
    by (simp add: cursor_after_def fresh_dispenser_def DMDispenser_new_def enable_progress_bar_def
        get_dm_trial_idx_def Let_def numeral_nat)
  have "int 2 \<le> cursor_after 2 True 3" by (simp add: c)
  with dispenser_each_index_once [of 2 4 True] have "returned 2 True 4 ! 3 = - 1" by simp
  moreover from dispenser_each_index_once [of 2 4 True]
  have "mset (takeWhile (\<lambda>r. r \<noteq> - 1) (returned 2 True 4)) = mset (map int [0..<2])"
    and "returned 2 True 4 ! 1 = 1" by simp_all
  ultimately show ?thesis using c by simp
qed

subsection \<open>The distillers\<close>

lemma distill_with_eq: "distill_with D S = distill (relation_of D) S"
  by (cases D)
    (simp_all add: HarmonicDistiller_distill_def AccelerationDistiller_distill_def
      DMDistiller_distill_def)

lemma distill_kept_iff: "c \<in> set (distill R S) \<longleftrightarrow> c \<in> set S \<and> \<not> subsumed R S c"
  by (simp add: distill_def)


lemma subsumed_mono: "set T \<subseteq> set S \<Longrightarrow> subsumed R T c \<Longrightarrow> subsumed R S c"
  by (auto simp: subsumed_def)

lemma distill_idem: "distill R (distill R S) = distill R S"
proof -
  have "\<not> subsumed R (distill R S) c" if "c \<in> set (distill R S)" for c
  proof
    assume "subsumed R (distill R S) c"
    then have "subsumed R S c"
      by (rule subsumed_mono [rotated]) (auto simp: distill_kept_iff)
    with that show False by (simp add: distill_kept_iff)
  qed
  then have "filter (\<lambda>c. \<not> subsumed R (distill R S) c) (distill R S) = distill R S"
    by (simp add: filter_id_conv)
  then show ?thesis
    by (simp add: distill_def [of R "distill R S"])
qed











text \<open>
  C4. For each of the three distillers, distilling the output again changes nothing.
\<close>

theorem distill_twice: "distill_with D (distill_with D S) = distill_with D S"
  by (simp add: distill_with_eq distill_idem)

theorem distill_twice_witness:
  "distill_with (Acceleration \<lparr>ad_tobs = 1, ad_tol = 1 / 10, ad_flag = True\<rparr>)
     (distill_with (Acceleration \<lparr>ad_tobs = 1, ad_tol = 1 / 10, ad_flag = True\<rparr>)
        [cand 10 5, cand 10 7, cand 50 6]) = [cand 10 7, cand 50 6]"
proof -
  have "distill_with (Acceleration \<lparr>ad_tobs = 1, ad_tol = 1 / 10, ad_flag = True\<rparr>)
          [cand 10 5, cand 10 7, cand 50 6] = [cand 10 7, cand 50 6]"
    by (simp add: AccelerationDistiller_distill_def distill_def subsumed_def
        acceleration_related_def cand_def)
  with distill_twice [of "Acceleration \<lparr>ad_tobs = 1, ad_tol = 1 / 10, ad_flag = True\<rparr>"
                        "[cand 10 5, cand 10 7, cand 50 6]"]
  show ?thesis by simp
qed

subsection \<open>The transform length\<close>

declare largest_power_of_two.simps [simp del]

lemma largest_power_of_two_spec:
  "0 < n \<Longrightarrow> (\<exists>k. largest_power_of_two n = 2 ^ k) \<and> largest_power_of_two n \<le> n
     \<and> n < 2 * largest_power_of_two n"
proof (induction n rule: largest_power_of_two.induct)
  case (1 n)
  show ?case
  proof (cases "n < 2")
    case True
    with "1.prems" have n: "n = 1" by simp
    have e: "largest_power_of_two n = 1"
      using True by (simp add: largest_power_of_two.simps [of n])
    then have "largest_power_of_two n = 2 ^ 0" by simp
    then have "\<exists>k. largest_power_of_two n = 2 ^ k" by blast
    then show ?thesis using e n by simp
  next
    case False
    then have pos: "0 < n div 2" by simp
    from "1.IH" [OF False pos] obtain k where
      k: "largest_power_of_two (n div 2) = 2 ^ k"
      and le: "largest_power_of_two (n div 2) \<le> n div 2"
      and lt: "n div 2 < 2 * largest_power_of_two (n div 2)" by blast
    have e: "largest_power_of_two n = 2 * largest_power_of_two (n div 2)"
      using False by (simp add: largest_power_of_two.simps [of n])
    have "largest_power_of_two n = 2 ^ Suc k" by (simp add: e k)
    moreover have "largest_power_of_two n \<le> n" using le e by simp
    moreover have "n < 2 * largest_power_of_two n" using lt e by simp
    ultimately show ?thesis by blast
  qed
qed

lemma unat_prev_power_of_two:
  "unat (prev_power_of_two n) = largest_power_of_two (unat n)" if "0 < n"
proof -
  have "0 < unat n" using that by (simp add: unat_gt_0)
  then have "largest_power_of_two (unat n) \<le> unat n"
    using largest_power_of_two_spec by blast
  also have "unat n < 2 ^ 32" using unsigned_less [of n] by simp
  finally show ?thesis
    by (simp add: prev_power_of_two_def unat_of_nat)
qed

text \<open>
  C8. \<open>size_opt\<close> is \<^verbatim>\<open>args.size\<close>, the configured size. When it is 0 the transform length
  is \<^verbatim>\<open>prev_power_of_two\<close> of the number of samples, which for a positive number of
  samples is a power of two, at most the number of samples and more than half of it;
  when it is not 0 the transform length is the configured size.
\<close>

theorem transform_length:
  "(size_opt args = 0 \<longrightarrow> select_size args nsamps = prev_power_of_two nsamps)
   \<and> (size_opt args = 0 \<and> 0 < nsamps \<longrightarrow>
        (\<exists>k. unat (select_size args nsamps) = 2 ^ k)
        \<and> unat (select_size args nsamps) \<le> unat nsamps
        \<and> unat nsamps < 2 * unat (select_size args nsamps))
   \<and> (size_opt args \<noteq> 0 \<longrightarrow> select_size args nsamps = size_opt args)"
proof -
  have "(\<exists>k. unat (prev_power_of_two nsamps) = 2 ^ k)
        \<and> unat (prev_power_of_two nsamps) \<le> unat nsamps
        \<and> unat nsamps < 2 * unat (prev_power_of_two nsamps)" if "0 < nsamps"
    using that largest_power_of_two_spec [of "unat nsamps"]
    by (simp add: unat_prev_power_of_two unat_gt_0)
  then show ?thesis
    by (simp add: select_size_def)
qed

theorem transform_length_witness:
  "size_opt args0 = 0 \<and> (0 :: 32 word) < 1000 \<and> select_size args0 1000 = 512
   \<and> unat (select_size args0 1000) \<le> unat (1000 :: 32 word)
   \<and> unat (1000 :: 32 word) < 2 * unat (select_size args0 1000)
   \<and> size_opt (args0\<lparr>size_opt := 1024\<rparr>) \<noteq> 0
   \<and> select_size (args0\<lparr>size_opt := 1024\<rparr>) 1000 = 1024"
proof -
  have a: "size_opt args0 = 0" and b: "(0 :: 32 word) < 1000"
    and c: "size_opt (args0\<lparr>size_opt := 1024\<rparr>) \<noteq> 0"
    by (simp_all add: args0_def)
  have e: "select_size args0 1000 = 512"
    by (simp add: select_size_def args0_def prev_power_of_two_def largest_power_of_two.simps)
  from transform_length [of args0 1000] a b
  have "unat (select_size args0 1000) \<le> unat (1000 :: 32 word)"
    and "unat (1000 :: 32 word) < 2 * unat (select_size args0 1000)" by blast+
  moreover from transform_length [of "args0\<lparr>size_opt := 1024\<rparr>" 1000] c
  have "select_size (args0\<lparr>size_opt := 1024\<rparr>) 1000 = 1024" by simp
  ultimately show ?thesis using a b c e by blast
qed

subsection \<open>The harmonic sums of an acceleration trial\<close>

lemma nearest_bin_div: "0 < f \<Longrightarrow> nearest_bin k j f = (2 * k * j + f) div (2 * f)"
proof -
  assume f: "0 < f"
  have "real k * real j / real f + 1 / 2 = real (2 * k * j + f) / real (2 * f)"
    using f by (simp add: field_simps)
  then have "round (real k * real j / real f) = \<lfloor>real (2 * k * j + f) / real (2 * f)\<rfloor>"
    by (simp only: round_def)
  also have "\<dots> = int ((2 * k * j + f) div (2 * f))"
    by (simp only: floor_divide_of_nat_eq)
  finally show ?thesis
    by (simp add: nearest_bin_def)
qed

lemma nearest_bin_le: "0 < f \<Longrightarrow> j < f \<Longrightarrow> nearest_bin k j f \<le> k"
proof -
  assume f: "0 < f" and j: "j < f"
  have a: "2 * k * j \<le> 2 * k * f" using j by (intro mult_le_mono2) simp
  have b: "2 * f * (k + 1) = 2 * k * f + 2 * f" by (simp add: algebra_simps)
  have "2 * k * j + f < 2 * f * (k + 1)" unfolding b using a f by linarith
  then have "(2 * k * j + f) div (2 * f) < k + 1"
    using f by (simp add: less_mult_imp_div_less mult.commute)
  then show ?thesis
    using f by (simp add: nearest_bin_div)
qed

lemma accel_trial_spectra:
  "d_fseries (accel_trial ext args idx w a) = fft_r2c ext (resample ext (d_tim w) (worker_size w) a)"
  "pspec (accel_trial ext args idx w a) =
     normalise (form_interpolated (d_fseries (accel_trial ext args idx w a)))
       (mean w * real (worker_size w)) (std w * real (worker_size w)) (worker_size w div 2 + 1)"
  "harm_sums (accel_trial ext args idx w a) =
     fold_sums (pspec (accel_trial ext args idx w a)) (nat (nharmonics args))"
  by (simp_all add: accel_trial_def logc_def Let_def)

lemma harmonic_sum_nth:
  "k < length P \<Longrightarrow> harmonic_sum P h ! k = (\<Sum>j\<leftarrow>[0..<2 ^ (h + 1)]. P ! nearest_bin k j (2 ^ (h + 1)))"
  by (simp add: harmonic_sum_def)

lemma length_harmonic_sum: "length (harmonic_sum P h) = length P"
  by (simp add: harmonic_sum_def)

lemma cleaned0_fields:
  "d_tim cleaned0 = [2, 6]" "mean cleaned0 = 10" "std cleaned0 = 1" "worker_size cleaned0 = 2"
  by (simp_all add: cleaned0_def stats_trial_def deredden_trial_def load_trial_def Worker_setup_def
      logc_def Let_def ext0_def trials0_def u0_def args1_def args0_def copy_from_host_def
      form_def form_interpolated_def amp_sq_def stats_mean_def)

lemma example_spectrum:
  "d_fseries (accel_trial ext0 args1 0 cleaned0 0) = [(8, 0), (- 4, 0)]"
  "pspec (accel_trial ext0 args1 0 cleaned0 0) = [22, - 2]"
   apply (simp_all add: accel_trial_spectra cleaned0_fields)
   apply (simp_all add: ext0_def cleaned0_fields form_interpolated_def amp_sq_def normalise_def)
  done

lemma upt_0_2: "[0..<2] = [0, Suc 0]"
  by (simp add: numeral_2_eq_2)

lemma example_sums:
  "harm_sums (accel_trial ext0 args1 0 cleaned0 0) = [[44, 20]]"
  "fold_sums (form (d_fseries (accel_trial ext0 args1 0 cleaned0 0))) (nat (nharmonics args1)) = [[128, 80]]"
   apply (simp_all add: accel_trial_spectra(3) example_spectrum)
   apply (simp_all add: args1_def args0_def fold_sums_def harmonic_sum_def nearest_bin_div form_def amp_sq_def upt_0_2)
  done

text \<open>
  C1, as the code has it. In every acceleration trial of every DM trial the spectrum that
  is folded is the worker's \<open>pspec\<close>: the interpolated power spectrum of the FFT of the
  resampled series, normalised with \<open>mean * size\<close> and \<open>std * size\<close>. There are
  \<open>nharmonics\<close> sums, each as long as \<open>pspec\<close>, and bin \<open>k\<close> of sum \<open>h\<close> is the sum
  over \<open>j = 0, ..., 2^(h+1) - 1\<close> of \<open>pspec[round(k j / 2^(h+1))]\<close>, every index being at
  most \<open>k\<close>.
\<close>

theorem sums_follow_normalised_interpolated_spectrum:
  "d_fseries (accel_trial ext args idx w a) = fft_r2c ext (resample ext (d_tim w) (worker_size w) a)
   \<and> pspec (accel_trial ext args idx w a) =
       normalise (form_interpolated (d_fseries (accel_trial ext args idx w a)))
         (mean w * real (worker_size w)) (std w * real (worker_size w)) (worker_size w div 2 + 1)
   \<and> length (harm_sums (accel_trial ext args idx w a)) = nat (nharmonics args)
   \<and> (\<forall>h k. h < nat (nharmonics args) \<and> k < length (pspec (accel_trial ext args idx w a)) \<longrightarrow>
         length (harm_sums (accel_trial ext args idx w a) ! h)
           = length (pspec (accel_trial ext args idx w a))
         \<and> harm_sums (accel_trial ext args idx w a) ! h ! k =
             (\<Sum>j\<leftarrow>[0..<2 ^ (h + 1)].
                pspec (accel_trial ext args idx w a) ! nat (round (real k * real j / 2 ^ (h + 1))))
         \<and> (\<forall>j < 2 ^ (h + 1). nat (round (real k * real j / 2 ^ (h + 1))) \<le> k))"
proof -
  let ?R = "accel_trial ext args idx w a"
  have s: "harm_sums ?R = fold_sums (pspec ?R) (nat (nharmonics args))"
    by (rule accel_trial_spectra)
  have nb: "nat (round (real k * real j / 2 ^ (h + 1))) = nearest_bin k j (2 ^ (h + 1))" for k j h
    by (simp add: nearest_bin_def)
  have "length (harm_sums ?R ! h) = length (pspec ?R)
        \<and> harm_sums ?R ! h ! k =
             (\<Sum>j\<leftarrow>[0..<2 ^ (h + 1)]. pspec ?R ! nat (round (real k * real j / 2 ^ (h + 1))))
        \<and> (\<forall>j < 2 ^ (h + 1). nat (round (real k * real j / 2 ^ (h + 1))) \<le> k)"
    if "h < nat (nharmonics args)" "k < length (pspec ?R)" for h k
    using that
    by (simp only: nb s) (simp add: fold_sums_def harmonic_sum_nth length_harmonic_sum nearest_bin_le)
  moreover have "length (harm_sums ?R) = nat (nharmonics args)"
    by (simp add: s fold_sums_def)
  ultimately show ?thesis
    using accel_trial_spectra(1,2) [of ext args idx w a] by blast
qed

theorem sums_follow_normalised_interpolated_spectrum_witness:
  "0 < nat (nharmonics args1) \<and> 1 < length (pspec (accel_trial ext0 args1 0 cleaned0 0))
   \<and> pspec (accel_trial ext0 args1 0 cleaned0 0) = [22, - 2]
   \<and> harm_sums (accel_trial ext0 args1 0 cleaned0 0) ! 0 ! 1 = 20"
proof -
  have h: "0 < nat (nharmonics args1)" by (simp add: args1_def args0_def)
  have k: "1 < length (pspec (accel_trial ext0 args1 0 cleaned0 0))"
    by (simp add: example_spectrum)
  from sums_follow_normalised_interpolated_spectrum [of ext0 args1 0 cleaned0 0] h k
  have "harm_sums (accel_trial ext0 args1 0 cleaned0 0) ! 0 ! 1 =
          (\<Sum>j\<leftarrow>[0..<2 ^ (0 + 1)].
             pspec (accel_trial ext0 args1 0 cleaned0 0) ! nat (round (real 1 * real j / 2 ^ (0 + 1))))"
    by blast
  also have "\<dots> = 20"
    by (simp add: example_spectrum upt_0_2 round_def)
  finally show ?thesis using h k by (simp add: example_spectrum)
qed

text \<open>
  C1, as the claim has it, fails: the sums are not those of the plain power spectrum
  \<open>|z[k]|^2\<close> of the trial's Fourier series. On DM trial 0 of the small run the series is
  \<open>[(8, 0), (-4, 0)]\<close>, its plain power spectrum is \<open>[64, 16]\<close> with the 2-fold sum
  \<open>[128, 80]\<close>, and the worker's sum is \<open>[44, 20]\<close>, that of the normalised spectrum
  \<open>[22, -2]\<close>.
\<close>

theorem sums_of_plain_spectrum_counterexample:
  "d_fseries (accel_trial ext0 args1 0 cleaned0 0) = [(8, 0), (- 4, 0)]
   \<and> harm_sums (accel_trial ext0 args1 0 cleaned0 0) = [[44, 20]]
   \<and> fold_sums (form (d_fseries (accel_trial ext0 args1 0 cleaned0 0))) (nat (nharmonics args1))
       = [[128, 80]]
   \<and> harm_sums (accel_trial ext0 args1 0 cleaned0 0)
       \<noteq> fold_sums (form (d_fseries (accel_trial ext0 args1 0 cleaned0 0))) (nat (nharmonics args1))"
proof -
  have a: "harm_sums (accel_trial ext0 args1 0 cleaned0 0) = [[44, 20]]"
    by (rule example_sums)
  have b: "fold_sums (form (d_fseries (accel_trial ext0 args1 0 cleaned0 0)))
             (nat (nharmonics args1)) = [[128, 80]]"
    by (rule example_sums)
  have c: "d_fseries (accel_trial ext0 args1 0 cleaned0 0) = [(8, 0), (- 4, 0)]"
    by (rule example_spectrum)
  have d: "harm_sums (accel_trial ext0 args1 0 cleaned0 0)
       \<noteq> fold_sums (form (d_fseries (accel_trial ext0 args1 0 cleaned0 0))) (nat (nharmonics args1))"
    unfolding a b by simp
  from c a b d show ?thesis by blast
qed

subsection \<open>The stages of a DM trial\<close>

lemma accel_trial_frame:
  "d_tim (accel_trial ext args idx w a) = d_tim w"
  "mean (accel_trial ext args idx w a) = mean w"
  "std (accel_trial ext args idx w a) = std w"
  "rms (accel_trial ext args idx w a) = rms w"
  "worker_size (accel_trial ext args idx w a) = worker_size w"
  "acc_list (accel_trial ext args idx w a) = acc_list w"
  "tim (accel_trial ext args idx w a) = tim w"
  "bzap (accel_trial ext args idx w a) = bzap w"
  "acc_still (accel_trial ext args idx w a) = acc_still w"
  "padding (accel_trial ext args idx w a) = padding w"
  "dm_trial_cands (accel_trial ext args idx w a) = dm_trial_cands w"
  by (simp_all add: accel_trial_def logc_def Let_def)

lemma accel_trial_calls:
  "calls (accel_trial ext args idx w a) = calls w @ accel_calls ext w a"
  by (simp add: accel_trial_def logc_def Let_def accel_calls_def)

lemma accel_loop_frame:
  "d_tim (foldl (accel_trial ext args idx) w accs) = d_tim w
   \<and> mean (foldl (accel_trial ext args idx) w accs) = mean w
   \<and> std (foldl (accel_trial ext args idx) w accs) = std w
   \<and> rms (foldl (accel_trial ext args idx) w accs) = rms w
   \<and> worker_size (foldl (accel_trial ext args idx) w accs) = worker_size w
   \<and> acc_list (foldl (accel_trial ext args idx) w accs) = acc_list w
   \<and> tim (foldl (accel_trial ext args idx) w accs) = tim w
   \<and> bzap (foldl (accel_trial ext args idx) w accs) = bzap w
   \<and> acc_still (foldl (accel_trial ext args idx) w accs) = acc_still w
   \<and> padding (foldl (accel_trial ext args idx) w accs) = padding w
   \<and> dm_trial_cands (foldl (accel_trial ext args idx) w accs) = dm_trial_cands w"
  by (induction accs arbitrary: w) (simp_all add: accel_trial_frame)

lemma accel_loop_calls:
  "calls (foldl (accel_trial ext args idx) w accs) = calls w @ concat (map (accel_calls ext w) accs)"
proof (induction accs arbitrary: w)
  case Nil
  show ?case by simp
next
  case (Cons a accs)
  have "accel_calls ext (accel_trial ext args idx w a) = accel_calls ext w"
    by (rule ext) (simp add: accel_calls_def accel_trial_frame)
  then show ?case
    by (simp add: Cons.IH accel_trial_calls)
qed

lemma stats_trial_stats:
  "mean (stats_trial ext w) = fst (stats ext (form_interpolated (d_fseries w)) (worker_size w div 2 + 1))"
  "rms (stats_trial ext w)
     = fst (snd (stats ext (form_interpolated (d_fseries w)) (worker_size w div 2 + 1)))"
  "std (stats_trial ext w)
     = snd (snd (stats ext (form_interpolated (d_fseries w)) (worker_size w div 2 + 1)))"
  by (simp_all add: stats_trial_def logc_def Let_def split_beta)

lemma stats_trial_fields:
  "d_tim (stats_trial ext w) = fft_c2r ext (d_fseries w)"
  "pspec (stats_trial ext w) = form_interpolated (d_fseries w)"
  "worker_size (stats_trial ext w) = worker_size w"
  "acc_list (stats_trial ext w) = acc_list w"
  "tim (stats_trial ext w) = tim w"
  "bzap (stats_trial ext w) = bzap w"
  "acc_still (stats_trial ext w) = acc_still w"
  "padding (stats_trial ext w) = padding w"
  "dm_trial_cands (stats_trial ext w) = dm_trial_cands w"
  "calls (stats_trial ext w) = calls w @
     [Call_form_interpolated,
      Call_stats (form_interpolated (d_fseries w)) (worker_size w div 2 + 1), Call_c2r]"
  by (simp_all add: stats_trial_def logc_def Let_def split_beta)

lemma search_trial_fields:
  "mean (search_trial ext args idx w) = mean (stats_trial ext w)"
  "rms (search_trial ext args idx w) = rms (stats_trial ext w)"
  "std (search_trial ext args idx w) = std (stats_trial ext w)"
  "d_tim (search_trial ext args idx w) = fft_c2r ext (d_fseries w)"
  "worker_size (search_trial ext args idx w) = worker_size w"
  "acc_list (search_trial ext args idx w) = acc_list w"
  "tim (search_trial ext args idx w) = tim w"
  "bzap (search_trial ext args idx w) = bzap w"
  "acc_still (search_trial ext args idx w) = acc_still w"
  "padding (search_trial ext args idx w) = padding w"
  by (simp_all add: search_trial_def logc_def Let_def accel_loop_frame stats_trial_fields)


lemma search_trial_calls:
  "calls (search_trial ext args idx w) =
     calls w @
     [Call_form_interpolated,
      Call_stats (form_interpolated (d_fseries w)) (worker_size w div 2 + 1), Call_c2r] @
     concat (map (accel_calls ext (search_trial ext args idx w)) (acc_list w)) @
     [Call_distill_accelerations]"
proof -
  let ?w2 = "stats_trial ext w"
  have "accel_calls ext (?w2\<lparr>accel_trial_cands := []\<rparr>) = accel_calls ext (search_trial ext args idx w)"
    by (rule ext) (simp add: accel_calls_def search_trial_fields stats_trial_fields)
  then show ?thesis
    by (simp add: search_trial_def logc_def Let_def accel_loop_calls stats_trial_fields)
qed




lemma length_copy_from_host [simp]: "length (copy_from_host buf t) = length buf"
  by (simp add: copy_from_host_def)

lemma length_fill [simp]: "length (fill buf a b v) = length buf"
  by (simp add: fill_def)

lemma load_trial_fields:
  "worker_size (load_trial trials i w) = worker_size w"
  "padding (load_trial trials i w) = padding w"
  "bzap (load_trial trials i w) = bzap w"
  "acc_still (load_trial trials i w) = acc_still w"
  "dm_trial_cands (load_trial trials i w) = dm_trial_cands w"
  "tim (load_trial trials i w) = series trials ! i"
  "length (d_tim (load_trial trials i w)) = length (d_tim w)"
  by (simp_all add: load_trial_def logc_def Let_def)

lemma load_trial_d_tim:
  "d_tim (load_trial trials i w) =
     (if padding w then
        fill (copy_from_host (d_tim w) (series trials ! i)) (get_nsamps trials) (length (d_tim w))
          (stats_mean (copy_from_host (d_tim w) (series trials ! i)) (get_nsamps trials))
      else copy_from_host (d_tim w) (series trials ! i))"
  by (simp add: load_trial_def logc_def Let_def)

lemma load_trial_calls:
  "calls (load_trial trials i w) =
     calls w @ [Call_get_idx (int i), Call_copy_from_host] @
     (if padding w then
        [Call_mean (get_nsamps trials),
         Call_fill (get_nsamps trials) (length (d_tim w))
           (stats_mean (copy_from_host (d_tim w) (series trials ! i)) (get_nsamps trials))]
      else [])"
  by (simp add: load_trial_def logc_def Let_def)

lemma deredden_trial_fields:
  "worker_size (deredden_trial ext w) = worker_size w"
  "padding (deredden_trial ext w) = padding w"
  "bzap (deredden_trial ext w) = bzap w"
  "acc_still (deredden_trial ext w) = acc_still w"
  "dm_trial_cands (deredden_trial ext w) = dm_trial_cands w"
  "tim (deredden_trial ext w) = tim w"
  "d_tim (deredden_trial ext w) = d_tim w"
  "acc_list (deredden_trial ext w) = generate_accel_list ext (get_dm (tim w))"
  "d_fseries (deredden_trial ext w) =
     deredden ext (calculate_median ext (form (fft_r2c ext (d_tim w)))) (fft_r2c ext (d_tim w))"
  "calls (deredden_trial ext w) =
     calls w @ [Call_generate_accel_list (get_dm (tim w)), Call_r2c (d_tim w), Call_form,
                Call_calculate_median, Call_deredden]"
  by (simp_all add: deredden_trial_def logc_def Let_def)

lemma zap_trial_fields:
  assumes "zap_trial ext args w = Inr c"
  shows "worker_size c = worker_size w" "padding c = padding w" "bzap c = bzap w"
    "acc_still c = acc_still w" "dm_trial_cands c = dm_trial_cands w" "tim c = tim w"
    "d_tim c = d_tim w" "acc_list c = acc_list w"
    "calls c = calls w @ (if zapfilename args \<noteq> [] then [Call_zap] else [])"
    "zapfilename args = [] \<longrightarrow> c = w"
    "zapfilename args \<noteq> [] \<longrightarrow> (\<exists>f. bzap w = Pointer (Zapper f) \<and> d_fseries c = zap ext f (d_fseries w))"
  using assms
  by (auto simp: zap_trial_def logc_def split: if_splits pointer.splits Zapper.splits)

lemma process_dm_Inr:
  assumes "process_dm ext args trials idx w = Inr w'"
  shows "0 \<le> idx \<and> nat idx < get_count trials
         \<and> (\<exists>c. zap_trial ext args (deredden_trial ext (load_trial trials (nat idx) w)) = Inr c
                \<and> w' = search_trial ext args idx c)"
  using assms by (auto simp: process_dm_def split: if_splits sum.splits)






lemma take_copy_from_host:
  "length (get_data t) \<le> length buf \<Longrightarrow>
   take (length (get_data t)) (copy_from_host buf t) = map (\<lambda>b. real (unat b)) (get_data t)"
  by (rule nth_equalityI) (simp_all add: copy_from_host_def)

text \<open>
  C7. When the transform size exceeds the number of samples (of which there is at least
  one), the device buffer that the forward FFT of a DM trial reads holds the samples of
  the trial at the indices below \<open>nsamps\<close> and their mean at the indices from \<open>nsamps\<close> up
  to the size; the fill is logged before the FFT. (\<open>padding\<close> is set by the prologue of
  \<^verbatim>\<open>start\<close> as the theorem asks, and \<open>d_tim\<close> is allocated with \<open>size\<close> samples.)
\<close>

theorem padding_before_forward_fft:
  assumes len: "length (get_data (series trials ! i)) = get_nsamps trials"
      and pos: "0 < get_nsamps trials"
      and big: "get_nsamps trials < worker_size w"
      and pad: "padding w = (worker_size w > get_nsamps trials)"
      and buf: "length (d_tim w) = worker_size w"
  shows "logged w (dereddened ext trials i w) =
           [Call_get_idx (int i), Call_copy_from_host, Call_mean (get_nsamps trials),
            Call_fill (get_nsamps trials) (worker_size w)
              (sum_list (map (\<lambda>b. real (unat b)) (get_data (series trials ! i)))
                 / real (get_nsamps trials)),
            Call_generate_accel_list (get_dm (series trials ! i)),
            Call_r2c (d_tim (load_trial trials i w)),
            Call_form, Call_calculate_median, Call_deredden]
         \<and> length (d_tim (load_trial trials i w)) = worker_size w
         \<and> (\<forall>k < get_nsamps trials.
               d_tim (load_trial trials i w) ! k = real (unat (get_data (series trials ! i) ! k)))
         \<and> (\<forall>k. get_nsamps trials \<le> k \<and> k < worker_size w \<longrightarrow>
               d_tim (load_trial trials i w) ! k =
                 sum_list (map (\<lambda>b. real (unat b)) (get_data (series trials ! i)))
                   / real (get_nsamps trials))"
proof -
  let ?t = "series trials ! i"
  let ?N = "get_nsamps trials"
  let ?copy = "copy_from_host (d_tim w) ?t"
  have p: "padding w" using pad big by simp
  have "take ?N ?copy = map (\<lambda>b. real (unat b)) (get_data ?t)"
    using take_copy_from_host [of ?t "d_tim w"] len big buf by simp
  then have m: "stats_mean ?copy ?N = sum_list (map (\<lambda>b. real (unat b)) (get_data ?t)) / real ?N"
    by (simp add: stats_mean_def)
  have d: "d_tim (load_trial trials i w) = fill ?copy ?N (worker_size w) (stats_mean ?copy ?N)"
    using p buf by (simp add: load_trial_d_tim)
  have 1: "logged w (dereddened ext trials i w) =
           [Call_get_idx (int i), Call_copy_from_host, Call_mean ?N,
            Call_fill ?N (worker_size w) (sum_list (map (\<lambda>b. real (unat b)) (get_data ?t)) / real ?N),
            Call_generate_accel_list (get_dm ?t),
            Call_r2c (d_tim (load_trial trials i w)),
            Call_form, Call_calculate_median, Call_deredden]"
    using p buf
    by (simp add: logged_def dereddened_def deredden_trial_fields load_trial_calls
        load_trial_fields m)
  have 2: "length (d_tim (load_trial trials i w)) = worker_size w"
    by (simp add: load_trial_fields buf)
  have 3: "\<forall>k < ?N. d_tim (load_trial trials i w) ! k = real (unat (get_data ?t ! k))"
    using big buf len by (simp add: d fill_def copy_from_host_def)
  have 4: "\<forall>k. ?N \<le> k \<and> k < worker_size w \<longrightarrow>
               d_tim (load_trial trials i w) ! k
                 = sum_list (map (\<lambda>b. real (unat b)) (get_data ?t)) / real ?N"
    using buf by (simp add: d fill_def m)
  from 1 2 3 4 show ?thesis by blast
qed

lemma worker0_fields:
  "worker_size worker0 = 2" "padding worker0 = False" "d_tim worker0 = [0, 0]"
  "calls worker0 = []" "bzap worker0 = Uninitialised"
  by (simp_all add: worker0_def Worker_setup_def Let_def u0_def args1_def args0_def trials0_def)

lemma dereddened0_fields:
  "d_fseries dereddened0 = [(4, 0), (- 2, 0)]" "worker_size dereddened0 = 2"
  "acc_list dereddened0 = [0]"
  by (simp_all add: dereddened0_def dereddened_def deredden_trial_fields load_trial_fields
      load_trial_d_tim worker0_fields copy_from_host_def ext0_def trials0_def)

lemma process_dm0:
  "process_dm ext0 args1 trials0 0 worker0 = Inr (search_trial ext0 args1 0 dereddened0)"
  by (simp add: process_dm_def zap_trial_def dereddened0_def dereddened_def get_count_def
      trials0_def args1_def args0_def)





lemma worker1_fields:
  "worker_size worker1 = 2" "padding worker1 = True" "d_tim worker1 = [0, 0]"
  by (simp_all add: worker1_def Worker_setup_def Let_def u0_def args0_def trials1_def)

theorem padding_before_forward_fft_witness:
  "length (get_data (series trials1 ! 0)) = get_nsamps trials1
   \<and> 0 < get_nsamps trials1
   \<and> get_nsamps trials1 < worker_size worker1
   \<and> padding worker1 = (worker_size worker1 > get_nsamps trials1)
   \<and> length (d_tim worker1) = worker_size worker1
   \<and> d_tim (load_trial trials1 0 worker1) = [3, 3]
   \<and> logged worker1 (dereddened ext0 trials1 0 worker1) =
        [Call_get_idx 0, Call_copy_from_host, Call_mean 1, Call_fill 1 2 3,
         Call_generate_accel_list 0, Call_r2c [3, 3], Call_form, Call_calculate_median,
         Call_deredden]"
proof -
  have h: "length (get_data (series trials1 ! 0)) = get_nsamps trials1"
    "0 < get_nsamps trials1" "get_nsamps trials1 < worker_size worker1"
    "padding worker1 = (worker_size worker1 > get_nsamps trials1)"
    "length (d_tim worker1) = worker_size worker1"
    by (simp_all add: worker1_fields trials1_def)
  have d: "d_tim (load_trial trials1 0 worker1) = [3, 3]"
    by (simp add: load_trial_d_tim worker1_fields trials1_def fill_def copy_from_host_def
        stats_mean_def)
  from padding_before_forward_fft [OF h, of ext0]
  have "logged worker1 (dereddened ext0 trials1 0 worker1) =
           [Call_get_idx (int 0), Call_copy_from_host, Call_mean (get_nsamps trials1),
            Call_fill (get_nsamps trials1) (worker_size worker1)
              (sum_list (map (\<lambda>b. real (unat b)) (get_data (series trials1 ! 0)))
                 / real (get_nsamps trials1)),
            Call_generate_accel_list (get_dm (series trials1 ! 0)),
            Call_r2c (d_tim (load_trial trials1 0 worker1)),
            Call_form, Call_calculate_median, Call_deredden]"
    by blast
  then have "logged worker1 (dereddened ext0 trials1 0 worker1) =
        [Call_get_idx 0, Call_copy_from_host, Call_mean 1, Call_fill 1 2 3,
         Call_generate_accel_list 0, Call_r2c [3, 3], Call_form, Call_calculate_median,
         Call_deredden]"
    by (simp add: d worker1_fields) (simp add: trials1_def)
  with h d show ?thesis by blast
qed

subsection \<open>Runs of the threads\<close>

lemma run_invariant:
  assumes "D (dispenser sys)" and "\<forall>t \<in> set (threads sys). I t"
    and step: "\<And>d t. D d \<Longrightarrow> I t \<Longrightarrow>
           D (fst (thread_step ext args trials d t)) \<and> I (snd (thread_step ext args trials d t))"
  shows "D (dispenser (run ext args trials sys schedule))
         \<and> (\<forall>t \<in> set (threads (run ext args trials sys schedule)). I t)"
  using assms(1,2) unfolding run_def
proof (induction schedule arbitrary: sys)
  case Nil
  then show ?case by simp
next
  case (Cons k ks)
  have "D (dispenser (system_step ext args trials sys k))
        \<and> (\<forall>t \<in> set (threads (system_step ext args trials sys k)). I t)"
  proof (cases "k < length (threads sys)")
    case True
    then have "I (threads sys ! k)" using Cons.prems(2) by simp
    from step [OF Cons.prems(1) this] Cons.prems(2) True show ?thesis
      by (auto simp: system_step_def split_beta dest!: set_update_subset_insert [THEN subsetD])
  next
    case False
    with Cons.prems show ?thesis by (simp add: system_step_def)
  qed
  then show ?case
    using Cons.IH [of "system_step ext args trials sys k"] by simp
qed

lemma Worker_setup_fields:
  "worker_size (Worker_setup trials args S u) = S"
  "padding (Worker_setup trials args S u) = (S > get_nsamps trials)"
  "acc_still (Worker_setup trials args S u)
     = \<lparr>ad_tobs = real S * get_tsamp trials, ad_tol = freq_tol args, ad_flag = True\<rparr>"
  "dm_trial_cands (Worker_setup trials args S u) = []"
  "bzap (Worker_setup trials args S u)
     = (if zapfilename args \<noteq> [] then Pointer (Zapper (zapfilename args)) else Uninitialised)"
  "calls (Worker_setup trials args S u)
     = (if zapfilename args \<noteq> [] then [Call_new_Zapper (zapfilename args)] else [])"
  "d_tim (Worker_setup trials args S u) = d_tim u"
  by (simp_all add: Worker_setup_def logc_def Let_def)

lemma launch_fields:
  "dispenser (launch trials args S us) = fresh_dispenser (get_count trials) (progress_bar args)"
  "threads (launch trials args S us)
     = map (\<lambda>u. \<lparr>status = Running, worker = Worker_setup trials args S u\<rparr>) us"
  by (simp_all add: launch_def fresh_dispenser_def)

lemma dispenser_ok_fresh: "dispenser_ok trials (fresh_dispenser (get_count trials) pb)"
  by (simp add: dispenser_ok_def fresh_dispenser_simps)

lemma dispenser_ok_step:
  assumes "dispenser_ok trials d"
  shows "dispenser_ok trials (snd (get_dm_trial_idx d))"
    and "fst (get_dm_trial_idx d) = - 1
         \<or> (0 \<le> fst (get_dm_trial_idx d) \<and> nat (fst (get_dm_trial_idx d)) < get_count trials)"
  using assms get_dm_trial_idx_cursor [of d] get_dm_trial_idx_count [of d] get_dm_trial_idx_fst [of d]
  by (auto simp: dispenser_ok_def)

lemma thread_step_dispenser:
  "dispenser_ok trials d \<Longrightarrow> dispenser_ok trials (fst (thread_step ext args trials d t))"
  using dispenser_ok_step(1) [of trials d]
  by (simp add: thread_step_def split_beta)

lemma thread_step_cases:
  obtains (idle) "status t \<noteq> Running" "thread_step ext args trials d t = (d, t)"
  | (finish) "status t = Running" "fst (get_dm_trial_idx d) = - 1"
      "snd (thread_step ext args trials d t) =
         (case delete_zapper args (worker t) of
            Inl e \<Rightarrow> t\<lparr>status := Faulted e\<rparr>
          | Inr w \<Rightarrow> \<lparr>status = Returned, worker = w\<rparr>)"
  | (trial) "status t = Running" "fst (get_dm_trial_idx d) \<noteq> - 1"
      "snd (thread_step ext args trials d t) =
         (case process_dm ext args trials (fst (get_dm_trial_idx d)) (worker t) of
            Inl e \<Rightarrow> t\<lparr>status := Faulted e\<rparr>
          | Inr w \<Rightarrow> t\<lparr>worker := w\<rparr>)"
  by (cases "status t = Running"; cases "fst (get_dm_trial_idx d) = - 1")
    (simp_all add: thread_step_def split_beta)

lemma delete_zapper_fields:
  assumes "delete_zapper args w = Inr w'"
  shows "worker_size w' = worker_size w" "acc_still w' = acc_still w"
    "dm_trial_cands w' = dm_trial_cands w" "padding w' = padding w"
    "zapfilename args = [] \<longrightarrow> w' = w"
    "zapfilename args \<noteq> [] \<longrightarrow> bzap w' = Deleted"
  using assms
  by (auto simp: delete_zapper_def logc_def split: if_splits pointer.splits)

lemma process_dm_fields:
  assumes "process_dm ext args trials idx w = Inr w'"
  shows "worker_size w' = worker_size w" "acc_still w' = acc_still w" "padding w' = padding w"
    "bzap w' = bzap w"
proof -
  from process_dm_Inr [OF assms] obtain c where
    z: "zap_trial ext args (deredden_trial ext (load_trial trials (nat idx) w)) = Inr c"
    and w': "w' = search_trial ext args idx c" by blast
  show "worker_size w' = worker_size w" "acc_still w' = acc_still w" "padding w' = padding w"
    "bzap w' = bzap w"
    by (simp_all add: w' search_trial_fields zap_trial_fields [OF z] deredden_trial_fields
        load_trial_fields)
qed

subsection \<open>The acceleration distiller of a worker\<close>

lemma search_trial_cands:
  "dm_trial_cands (search_trial ext args idx w) =
     dm_trial_cands w @
     AccelerationDistiller_distill (acc_still w) (accel_trial_cands (search_trial ext args idx w))"
  by (simp add: search_trial_def logc_def Let_def accel_loop_frame stats_trial_fields)

lemma thread_step_acc_still:
  assumes "acc_still (worker t) = A"
  shows "acc_still (worker (snd (thread_step ext args trials d t))) = A"
proof (cases rule: thread_step_cases [where t = t and d = d and ext = ext and args = args and trials = trials])
  case idle
  with assms show ?thesis by simp
next
  case finish
  with assms show ?thesis
    by (auto split: sum.splits dest: delete_zapper_fields(2))
next
  case trial
  with assms show ?thesis
    by (auto split: sum.splits dest: process_dm_fields(2))
qed

text \<open>
  C6. At every moment of every run, the acceleration distiller of every worker is the one
  built by the prologue of \<^verbatim>\<open>start\<close> with \<open>tobs = size * tsamp\<close>, the padded transform
  length times the sample interval; it is the distiller whose output a DM trial appends
  to \<open>dm_trial_cands\<close>; and when the size differs from the number of samples (and the
  sample interval is not 0) this is not \<open>nsamps * tsamp\<close>.
\<close>

theorem acceleration_distiller_tobs:
  "(\<forall>t \<in> set (threads (run ext args trials (launch trials args S us) schedule)).
      acc_still (worker t)
        = \<lparr>ad_tobs = real S * get_tsamp trials, ad_tol = freq_tol args, ad_flag = True\<rparr>)
   \<and> (\<forall>idx w. dm_trial_cands (search_trial ext args idx w) =
         dm_trial_cands w @
         AccelerationDistiller_distill (acc_still w)
           (accel_trial_cands (search_trial ext args idx w)))
   \<and> (S \<noteq> get_nsamps trials \<and> get_tsamp trials \<noteq> 0 \<longrightarrow>
        ad_tobs (acc_still (Worker_setup trials args S u))
          \<noteq> real (get_nsamps trials) * get_tsamp trials)"
proof -
  let ?A = "\<lparr>ad_tobs = real S * get_tsamp trials, ad_tol = freq_tol args, ad_flag = True\<rparr>"
  have "True \<and> (\<forall>t \<in> set (threads (run ext args trials (launch trials args S us) schedule)).
          acc_still (worker t) = ?A)"
    by (rule run_invariant [where D = "\<lambda>d. True"])
      (simp_all add: launch_fields Worker_setup_fields thread_step_acc_still)
  moreover have "S \<noteq> get_nsamps trials \<and> get_tsamp trials \<noteq> 0 \<longrightarrow>
        ad_tobs (acc_still (Worker_setup trials args S u))
          \<noteq> real (get_nsamps trials) * get_tsamp trials"
    by (simp add: Worker_setup_fields)
  ultimately show ?thesis
    using search_trial_cands by blast
qed

subsection \<open>The zapper pointer\<close>

lemma filter_concat_accel_zapper:
  "filter is_zapper_use (concat (map (accel_calls ext w) accs)) = []"
  by (induction accs) (simp_all add: accel_calls_def)

lemma process_dm_zapper_calls:
  assumes "process_dm ext args trials idx w = Inr w'" and "zapfilename args = []"
  shows "filter is_zapper_use (calls w') = filter is_zapper_use (calls w)"
proof -
  from process_dm_Inr [OF assms(1)] obtain c where
    z: "zap_trial ext args (deredden_trial ext (load_trial trials (nat idx) w)) = Inr c"
    and w': "w' = search_trial ext args idx c" by blast
  have "calls c = calls (deredden_trial ext (load_trial trials (nat idx) w))"
    using zap_trial_fields(9) [OF z] assms(2) by simp
  then show ?thesis
    by (simp add: w' search_trial_calls filter_concat_accel_zapper deredden_trial_fields
        load_trial_calls)
qed

lemma process_dm_succeeds:
  assumes "0 \<le> idx" "nat idx < get_count trials"
    and "zapfilename args \<noteq> [] \<longrightarrow> (\<exists>f. bzap w = Pointer (Zapper f))"
  shows "\<exists>w'. process_dm ext args trials idx w = Inr w'"
  using assms
  by (auto simp: process_dm_def zap_trial_def deredden_trial_fields load_trial_fields)

lemma zap_trial_fault:
  "(\<exists>e. zap_trial ext args w = Inl e) \<longleftrightarrow> (zapfilename args \<noteq> [] \<and> (\<forall>z. bzap w \<noteq> Pointer z))"
  by (auto simp: zap_trial_def split: pointer.splits Zapper.splits)

lemma delete_zapper_fault:
  "(\<exists>e. delete_zapper args w = Inl e) \<longleftrightarrow> (zapfilename args \<noteq> [] \<and> (\<forall>z. bzap w \<noteq> Pointer z))"
  by (auto simp: delete_zapper_def split: pointer.splits)

lemma thread_step_zapper:
  assumes d: "dispenser_ok trials d" and t: "zapper_ok args t"
  shows "zapper_ok args (snd (thread_step ext args trials d t))"
proof (cases rule: thread_step_cases [where t = t and d = d and ext = ext and args = args and trials = trials])
  case idle
  with t show ?thesis by simp
next
  case finish
  show ?thesis
  proof (cases "zapfilename args = []")
    case True
    then have "delete_zapper args (worker t) = Inr (worker t)"
      by (simp add: delete_zapper_def)
    with finish t True show ?thesis by (simp add: zapper_ok_def)
  next
    case False
    with t finish have "bzap (worker t) = Pointer (Zapper (zapfilename args))"
      by (simp add: zapper_ok_def)
    then have "delete_zapper args (worker t)
                 = Inr (logc Call_delete_Zapper ((worker t)\<lparr>bzap := Deleted\<rparr>))"
      using False by (simp add: delete_zapper_def)
    with finish False show ?thesis by (simp add: zapper_ok_def logc_def)
  qed
next
  case trial
  let ?i = "fst (get_dm_trial_idx d)"
  have rng: "0 \<le> ?i" "nat ?i < get_count trials"
    using dispenser_ok_step(2) [OF d] trial(2) by auto
  have "zapfilename args \<noteq> [] \<longrightarrow> (\<exists>f. bzap (worker t) = Pointer (Zapper f))"
    using t trial(1) by (simp add: zapper_ok_def)
  from process_dm_succeeds [OF rng this] obtain w' where
    p: "process_dm ext args trials ?i (worker t) = Inr w'" by blast
  have s: "snd (thread_step ext args trials d t) = t\<lparr>worker := w'\<rparr>"
    using trial(3) p by simp
  have "bzap w' = bzap (worker t)" using p by (rule process_dm_fields)
  moreover have "zapfilename args = [] \<longrightarrow>
      filter is_zapper_use (calls w') = filter is_zapper_use (calls (worker t))"
    using process_dm_zapper_calls [OF p] by simp
  ultimately show ?thesis
    using t by (simp add: s zapper_ok_def)
qed

lemma launch_zapper_ok: "\<forall>t \<in> set (threads (launch trials args S us)). zapper_ok args t"
  by (auto simp: launch_fields zapper_ok_def Worker_setup_fields)

text \<open>
  C10. In every run, whatever the schedule, no thread ever faults: the zapper pointer is
  never used while uninitialised or deleted (and no trial is read out of range). Without
  a zap file the pointer of every worker stays uninitialised and the log of the worker
  has neither a zap nor a delete; with a zap file the pointer is the zapper built by the
  prologue as long as the thread runs, and is deleted when the thread has returned. The
  model faults at the zap or at the delete exactly when the zap file name is not empty
  and the pointer does not point to a zapper.
\<close>

theorem zapper_used_only_when_initialised:
  "(\<forall>t \<in> set (threads (run ext args trials (launch trials args S us) schedule)).
      (\<forall>e. status t \<noteq> Faulted e)
      \<and> (zapfilename args = [] \<longrightarrow>
            bzap (worker t) = Uninitialised \<and> filter is_zapper_use (calls (worker t)) = [])
      \<and> (zapfilename args \<noteq> [] \<longrightarrow>
            (status t = Running \<longrightarrow> bzap (worker t) = Pointer (Zapper (zapfilename args)))
            \<and> (status t = Returned \<longrightarrow> bzap (worker t) = Deleted)))
   \<and> (\<forall>w. (\<exists>e. zap_trial ext args w = Inl e)
            \<longleftrightarrow> (zapfilename args \<noteq> [] \<and> (\<forall>z. bzap w \<noteq> Pointer z)))
   \<and> (\<forall>w. (\<exists>e. delete_zapper args w = Inl e)
            \<longleftrightarrow> (zapfilename args \<noteq> [] \<and> (\<forall>z. bzap w \<noteq> Pointer z)))"
proof -
  have "dispenser_ok trials (dispenser (run ext args trials (launch trials args S us) schedule))
        \<and> (\<forall>t \<in> set (threads (run ext args trials (launch trials args S us) schedule)).
              zapper_ok args t)"
    by (rule run_invariant)
      (simp_all add: launch_fields(1) dispenser_ok_fresh launch_zapper_ok thread_step_dispenser
        thread_step_zapper)
  then have "\<forall>t \<in> set (threads (run ext args trials (launch trials args S us) schedule)).
      (\<forall>e. status t \<noteq> Faulted e)
      \<and> (zapfilename args = [] \<longrightarrow>
            bzap (worker t) = Uninitialised \<and> filter is_zapper_use (calls (worker t)) = [])
      \<and> (zapfilename args \<noteq> [] \<longrightarrow>
            (status t = Running \<longrightarrow> bzap (worker t) = Pointer (Zapper (zapfilename args)))
            \<and> (status t = Returned \<longrightarrow> bzap (worker t) = Deleted))"
    by (simp add: zapper_ok_def)
  then show ?thesis
    using zap_trial_fault delete_zapper_fault by blast
qed

subsection \<open>The tags of the candidates\<close>

lemma distill_set: "set (distill R S) \<subseteq> set S"
  by (auto simp: distill_kept_iff)

lemma accel_trial_cands_tags:
  assumes "c \<in> set (accel_trial_cands (accel_trial ext args idx w a))"
  shows "c \<in> set (accel_trial_cands w)
         \<or> (dm c = get_dm (tim w) \<and> dm_trial_idx c = idx \<and> acceleration c = a)"
proof -
  from assms obtain ps where
    "c \<in> set (accel_trial_cands w)
     \<or> c \<in> set (HarmonicDistiller_distill (harm_finder w) (SpectrumCandidates (get_dm (tim w)) idx a ps))"
    by (auto simp: accel_trial_def logc_def Let_def)
  moreover have "set (HarmonicDistiller_distill (harm_finder w) (SpectrumCandidates (get_dm (tim w)) idx a ps))
                   \<subseteq> set (SpectrumCandidates (get_dm (tim w)) idx a ps)"
    by (simp add: HarmonicDistiller_distill_def distill_set)
  ultimately show ?thesis
    by (auto simp: SpectrumCandidates_def)
qed

lemma accel_loop_cands_tags:
  "c \<in> set (accel_trial_cands (foldl (accel_trial ext args idx) w accs)) \<Longrightarrow>
   c \<in> set (accel_trial_cands w)
   \<or> (dm c = get_dm (tim w) \<and> dm_trial_idx c = idx \<and> acceleration c \<in> set accs)"
proof (induction accs arbitrary: w)
  case Nil
  then show ?case by simp
next
  case (Cons a accs)
  from Cons.IH [of "accel_trial ext args idx w a"] Cons.prems
  have "c \<in> set (accel_trial_cands (accel_trial ext args idx w a))
        \<or> (dm c = get_dm (tim w) \<and> dm_trial_idx c = idx \<and> acceleration c \<in> set accs)"
    by (simp add: accel_trial_frame)
  then show ?case
    using accel_trial_cands_tags [of c ext args idx w a] by auto
qed

lemma search_trial_new_cands:
  "\<exists>new. dm_trial_cands (search_trial ext args idx w) = dm_trial_cands w @ new
         \<and> (\<forall>c \<in> set new. dm c = get_dm (tim w) \<and> dm_trial_idx c = idx
                \<and> acceleration c \<in> set (acc_list w))"
proof -
  let ?w3 = "foldl (accel_trial ext args idx) ((stats_trial ext w)\<lparr>accel_trial_cands := []\<rparr>)
               (acc_list (stats_trial ext w))"
  let ?new = "AccelerationDistiller_distill (acc_still ?w3) (accel_trial_cands ?w3)"
  have 1: "dm_trial_cands (search_trial ext args idx w) = dm_trial_cands w @ ?new"
    by (simp add: search_trial_def logc_def Let_def accel_loop_frame stats_trial_fields)
  have "set ?new \<subseteq> set (accel_trial_cands ?w3)"
    by (simp add: AccelerationDistiller_distill_def distill_set)
  then have "\<forall>c \<in> set ?new. dm c = get_dm (tim w) \<and> dm_trial_idx c = idx
                \<and> acceleration c \<in> set (acc_list w)"
    using accel_loop_cands_tags
            [of _ ext args idx "(stats_trial ext w)\<lparr>accel_trial_cands := []\<rparr>"
               "acc_list (stats_trial ext w)"]
    by (auto simp: stats_trial_fields)
  with 1 show ?thesis by blast
qed

lemma process_dm_new_cands:
  assumes "process_dm ext args trials idx w = Inr w'"
  shows "\<exists>new. dm_trial_cands w' = dm_trial_cands w @ new
         \<and> (\<forall>c \<in> set new. dm_trial_idx c = idx \<and> dm c = get_dm (series trials ! nat idx)
                \<and> acceleration c \<in> set (generate_accel_list ext (get_dm (series trials ! nat idx))))"
proof -
  from process_dm_Inr [OF assms] obtain c where
    z: "zap_trial ext args (deredden_trial ext (load_trial trials (nat idx) w)) = Inr c"
    and w': "w' = search_trial ext args idx c" by blast
  have f: "dm_trial_cands c = dm_trial_cands w" "tim c = series trials ! nat idx"
    "acc_list c = generate_accel_list ext (get_dm (series trials ! nat idx))"
    by (simp_all add: zap_trial_fields [OF z] deredden_trial_fields load_trial_fields)
  from search_trial_new_cands [of ext args idx c] obtain new where
    "dm_trial_cands (search_trial ext args idx c) = dm_trial_cands c @ new"
    "\<forall>x \<in> set new. dm x = get_dm (tim c) \<and> dm_trial_idx x = idx
                \<and> acceleration x \<in> set (acc_list c)"
    by blast
  then show ?thesis
    unfolding w' f by blast
qed

lemma thread_step_tagged:
  assumes "\<forall>c \<in> set (dm_trial_cands (worker t)). tagged ext trials c"
  shows "\<forall>c \<in> set (dm_trial_cands (worker (snd (thread_step ext args trials d t)))).
           tagged ext trials c"
proof (cases rule: thread_step_cases [where t = t and d = d and ext = ext and args = args and trials = trials])
  case idle
  with assms show ?thesis by simp
next
  case finish
  with assms show ?thesis
    by (auto split: sum.splits dest: delete_zapper_fields(3))
next
  case trial
  let ?i = "fst (get_dm_trial_idx d)"
  show ?thesis
  proof (cases "process_dm ext args trials ?i (worker t)")
    case (Inl e)
    with trial assms show ?thesis by simp
  next
    case (Inr w')
    from process_dm_Inr [OF Inr] have rng: "0 \<le> ?i" "nat ?i < get_count trials" by auto
    from process_dm_new_cands [OF Inr] obtain new where
      n: "dm_trial_cands w' = dm_trial_cands (worker t) @ new"
      "\<forall>c \<in> set new. dm_trial_idx c = ?i \<and> dm c = get_dm (series trials ! nat ?i)
           \<and> acceleration c \<in> set (generate_accel_list ext (get_dm (series trials ! nat ?i)))"
      by blast
    have "\<forall>c \<in> set new. tagged ext trials c"
      using n(2) rng by (simp add: tagged_def)
    with assms trial Inr n(1) show ?thesis by auto
  qed
qed

lemma accel_trial_frame_finders:
  "harm_finder (accel_trial ext args idx w a) = harm_finder w"
  "cand_finder (accel_trial ext args idx w a) = cand_finder w"
  "bin_width (accel_trial ext args idx w a) = bin_width w"
  by (simp_all add: accel_trial_def logc_def Let_def)

lemma accel_trial_cands_eq:
  "accel_trial_cands (accel_trial ext args idx w a) = accel_trial_cands w @ accel_cands ext args idx w a"
  by (simp add: accel_cands_def accel_trial_def logc_def Let_def)

lemma accel_cands_tags:
  "c \<in> set (accel_cands ext args idx w a) \<Longrightarrow>
   dm_trial_idx c = idx \<and> acceleration c = a \<and> dm c = get_dm (tim w)"
proof -
  assume "c \<in> set (accel_cands ext args idx w a)"
  then obtain ps where "c \<in> set (SpectrumCandidates (get_dm (tim w)) idx a ps)"
    using distill_set by (fastforce simp: accel_cands_def HarmonicDistiller_distill_def)
  then show ?thesis by (auto simp: SpectrumCandidates_def)
qed

lemma accel_cands_after_trial:
  "accel_cands ext args idx (accel_trial ext args idx w b) = accel_cands ext args idx w"
  by (rule ext)
    (simp add: accel_cands_def accel_trial_spectra accel_trial_frame accel_trial_frame_finders)

lemma accel_cands_reset:
  "accel_cands ext args idx (w\<lparr>accel_trial_cands := []\<rparr>) = accel_cands ext args idx w"
  by (rule ext) (simp add: accel_cands_def accel_trial_spectra)

lemma accel_loop_cands_eq:
  "accel_trial_cands (foldl (accel_trial ext args idx) w accs) =
     accel_trial_cands w @ concat (map (accel_cands ext args idx w) accs)"
proof (induction accs arbitrary: w)
  case Nil
  show ?case by simp
next
  case (Cons a accs)
  show ?case
    by (simp add: Cons.IH accel_trial_cands_eq accel_cands_after_trial)
qed

lemma search_trial_cands_eq:
  "dm_trial_cands (search_trial ext args idx w) =
     dm_trial_cands w @
     AccelerationDistiller_distill (acc_still w)
       (concat (map (accel_cands ext args idx (stats_trial ext w)) (acc_list w)))"
  by (simp add: search_trial_def logc_def Let_def accel_loop_frame accel_loop_cands_eq
      accel_cands_reset stats_trial_fields)

lemma process_dm_cands_eq:
  assumes "process_dm ext args trials idx w = Inr w'"
  shows "\<exists>v. tim v = series trials ! nat idx
           \<and> dm_trial_cands w' =
               dm_trial_cands w @
               AccelerationDistiller_distill (acc_still w)
                 (concat (map (accel_cands ext args idx v)
                            (generate_accel_list ext (get_dm (series trials ! nat idx)))))"
proof -
  from process_dm_Inr [OF assms] obtain c where
    z: "zap_trial ext args (deredden_trial ext (load_trial trials (nat idx) w)) = Inr c"
    and w': "w' = search_trial ext args idx c" by blast
  have f: "dm_trial_cands c = dm_trial_cands w" "tim c = series trials ! nat idx"
    "acc_list c = generate_accel_list ext (get_dm (series trials ! nat idx))"
    "acc_still c = acc_still w"
    by (simp_all add: zap_trial_fields [OF z] deredden_trial_fields load_trial_fields)
  have "tim (stats_trial ext c) = series trials ! nat idx"
    by (simp add: stats_trial_fields f)
  then show ?thesis
    using search_trial_cands_eq [of ext args idx c] unfolding w' f by blast
qed

text \<open>
  C9. An acceleration trial at acceleration \<open>a\<close> of the DM trial of index \<open>idx\<close> appends
  to \<open>accel_trial_cands\<close> the candidates \<open>accel_cands\<close> of that trial, and every one of
  them carries \<open>dm_trial_idx = idx\<close>, \<open>acceleration = a\<close>, the acceleration of the trial
  that produced it, and the DM of the time series being searched. What a completed DM
  trial appends to \<open>dm_trial_cands\<close> is the acceleration distiller's choice among the
  candidates of the acceleration trials of the plan, on the series of index \<open>idx\<close>, all
  with \<open>dm_trial_idx = idx\<close> and the DM of that trial. Hence, in every run, every
  candidate of the workers' collections, and every candidate that main keeps after
  distilling them, has an index inside the collection of trials, the DM of the trial of
  that index and an acceleration of its plan.
\<close>

theorem candidates_carry_their_trial:
  "(\<forall>idx w a.
      accel_trial_cands (accel_trial ext args idx w a)
        = accel_trial_cands w @ accel_cands ext args idx w a
      \<and> (\<forall>c \<in> set (accel_cands ext args idx w a).
            dm_trial_idx c = idx \<and> acceleration c = a \<and> dm c = get_dm (tim w)))
   \<and> (\<forall>idx w w'. process_dm ext args trials idx w = Inr w' \<longrightarrow>
      (\<exists>v new. tim v = series trials ! nat idx
         \<and> new = AccelerationDistiller_distill (acc_still w)
                   (concat (map (accel_cands ext args idx v)
                              (generate_accel_list ext (get_dm (series trials ! nat idx)))))
         \<and> dm_trial_cands w' = dm_trial_cands w @ new
         \<and> (\<forall>c \<in> set new. dm_trial_idx c = idx \<and> dm c = get_dm (series trials ! nat idx)
                \<and> acceleration c \<in> set (generate_accel_list ext (get_dm (series trials ! nat idx))))))
   \<and> (\<forall>c \<in> set (collect (run ext args trials (launch trials args S us) schedule)).
        tagged ext trials c)
   \<and> (\<forall>c \<in> set (main_distill args
                    (collect (run ext args trials (launch trials args S us) schedule))).
        tagged ext trials c)"
proof -
  have a: "\<forall>idx w a.
      accel_trial_cands (accel_trial ext args idx w a)
        = accel_trial_cands w @ accel_cands ext args idx w a
      \<and> (\<forall>c \<in> set (accel_cands ext args idx w a).
            dm_trial_idx c = idx \<and> acceleration c = a \<and> dm c = get_dm (tim w))"
    using accel_trial_cands_eq accel_cands_tags by blast
  have b: "\<exists>v new. tim v = series trials ! nat idx
         \<and> new = AccelerationDistiller_distill (acc_still w)
                   (concat (map (accel_cands ext args idx v)
                              (generate_accel_list ext (get_dm (series trials ! nat idx)))))
         \<and> dm_trial_cands w' = dm_trial_cands w @ new
         \<and> (\<forall>c \<in> set new. dm_trial_idx c = idx \<and> dm c = get_dm (series trials ! nat idx)
                \<and> acceleration c \<in> set (generate_accel_list ext (get_dm (series trials ! nat idx))))"
    if p: "process_dm ext args trials idx w = Inr w'" for idx w w'
  proof -
    from process_dm_cands_eq [OF p] obtain v where
      v: "tim v = series trials ! nat idx"
      "dm_trial_cands w' =
         dm_trial_cands w @
         AccelerationDistiller_distill (acc_still w)
           (concat (map (accel_cands ext args idx v)
                      (generate_accel_list ext (get_dm (series trials ! nat idx)))))"
      by blast
    from process_dm_new_cands [OF p] obtain new where
      n: "dm_trial_cands w' = dm_trial_cands w @ new"
      "\<forall>c \<in> set new. dm_trial_idx c = idx \<and> dm c = get_dm (series trials ! nat idx)
           \<and> acceleration c \<in> set (generate_accel_list ext (get_dm (series trials ! nat idx)))"
      by blast
    from v(2) n(1) have "new = AccelerationDistiller_distill (acc_still w)
           (concat (map (accel_cands ext args idx v)
                      (generate_accel_list ext (get_dm (series trials ! nat idx)))))"
      by simp
    with v(1) n show ?thesis by blast
  qed
  have "True \<and> (\<forall>t \<in> set (threads (run ext args trials (launch trials args S us) schedule)).
          \<forall>c \<in> set (dm_trial_cands (worker t)). tagged ext trials c)"
    by (rule run_invariant [where D = "\<lambda>d. True"])
      (simp_all add: launch_fields Worker_setup_fields thread_step_tagged)
  then have c: "\<forall>c \<in> set (collect (run ext args trials (launch trials args S us) schedule)).
        tagged ext trials c"
    by (auto simp: collect_def)
  have "set (main_distill args cs) \<subseteq> set cs" for cs
  proof -
    have "set (main_distill args cs)
            \<subseteq> set (DMDistiller_distill \<lparr>dd_tol = freq_tol args, dd_flag = True\<rparr> cs)"
      by (simp add: main_distill_def HarmonicDistiller_distill_def distill_set)
    also have "\<dots> \<subseteq> set cs"
      by (simp add: DMDistiller_distill_def distill_set)
    finally show ?thesis .
  qed
  with c have d: "\<forall>c \<in> set (main_distill args
                    (collect (run ext args trials (launch trials args S us) schedule))).
        tagged ext trials c"
    by blast
  from a b c d show ?thesis by blast
qed

subsection \<open>The small runs\<close>

lemma launch0:
  "launch trials0 args1 2 [u0, u0] =
     \<lparr>dispenser = fresh_dispenser 2 False,
      threads = [\<lparr>status = Running, worker = worker0\<rparr>, \<lparr>status = Running, worker = worker0\<rparr>]\<rparr>"
  by (simp add: launch_def fresh_dispenser_def DMDispenser_new_def worker0_def get_count_def
      trials0_def args1_def args0_def)

lemma process_dm1:
  "process_dm ext0 args1 trials0 1 worker0
     = Inr (search_trial ext0 args1 1 dereddened1)"
  by (simp add: process_dm_def zap_trial_def dereddened1_def dereddened_def get_count_def
      trials0_def args1_def args0_def)

lemma delete_zapper1: "delete_zapper args1 w = Inr w"
  by (simp add: delete_zapper_def args1_def args0_def)

lemma system0_threads:
  "threads system0 =
     [\<lparr>status = Returned, worker = search_trial ext0 args1 1 dereddened1\<rparr>,
      \<lparr>status = Returned, worker = search_trial ext0 args1 0 dereddened0\<rparr>]"
  by (simp add: system0_def run_def launch0 system_step_def thread_step_def split_beta
      get_dm_trial_idx_def fresh_dispenser_def DMDispenser_new_def Let_def
      process_dm0 process_dm1 delete_zapper1)

lemma length_threads_step:
  "length (threads (system_step ext args trials sys k)) = length (threads sys)"
  by (simp add: system_step_def split_beta)

lemma length_threads_run:
  "length (threads (run ext args trials sys schedule)) = length (threads sys)"
  unfolding run_def
  by (induction schedule arbitrary: sys) (simp_all add: length_threads_step)

lemma search_trial_single:
  assumes "acc_list w = [a]"
  shows "dm_trial_cands (search_trial ext args idx w) =
     dm_trial_cands w @
     AccelerationDistiller_distill (acc_still w)
       (HarmonicDistiller_distill (harm_finder w)
          (SpectrumCandidates (get_dm (tim w)) idx a
             (find_candidates ext (cand_finder w) (bin_width w)
                (pspec (accel_trial ext args idx (stats_trial ext w) a)) @
              find_candidates_sums ext (cand_finder w) (bin_width w)
                (harm_sums (accel_trial ext args idx (stats_trial ext w) a)))))"
  using assms
  by (simp add: search_trial_def stats_trial_def accel_trial_def logc_def Let_def split_beta)

lemma dereddened_worker0_fields:
  "i < 2 \<Longrightarrow> acc_list (dereddened ext0 trials0 i worker0) = [0]"
  "i < 2 \<Longrightarrow> dm_trial_cands (dereddened ext0 trials0 i worker0) = []"
  "i < 2 \<Longrightarrow> worker_size (dereddened ext0 trials0 i worker0) = 2"
  "i < 2 \<Longrightarrow> tim (dereddened ext0 trials0 i worker0) = series trials0 ! i"
  "i < 2 \<Longrightarrow> bin_width (dereddened ext0 trials0 i worker0) = 1 / 2"
  "i < 2 \<Longrightarrow> cand_finder (dereddened ext0 trials0 i worker0)
     = \<lparr>pf_min_snr = 9, pf_min_freq = 1 / 10, pf_max_freq = 1100\<rparr>"
  by (simp_all add: dereddened_def deredden_trial_def load_trial_def worker0_def
      Worker_setup_def logc_def Let_def ext0_def trials0_def u0_def args1_def args0_def)

lemma dereddened0_more:
  "acc_list dereddened0 = [0]" "dm_trial_cands dereddened0 = []" "worker_size dereddened0 = 2"
  "tim dereddened0 = series trials0 ! 0" "bin_width dereddened0 = 1 / 2"
  "cand_finder dereddened0 = \<lparr>pf_min_snr = 9, pf_min_freq = 1 / 10, pf_max_freq = 1100\<rparr>"
  unfolding dereddened0_def by (rule dereddened_worker0_fields, simp)+

lemma dereddened1_more:
  "acc_list dereddened1 = [0]" "dm_trial_cands dereddened1 = []" "worker_size dereddened1 = 2"
  "tim dereddened1 = series trials0 ! 1" "bin_width dereddened1 = 1 / 2"
  "cand_finder dereddened1 = \<lparr>pf_min_snr = 9, pf_min_freq = 1 / 10, pf_max_freq = 1100\<rparr>"
  unfolding dereddened1_def by (rule dereddened_worker0_fields, simp)+

lemma dereddened1_spectrum: "d_fseries dereddened1 = [(4, 0), (- 4, 0)]"
  by (simp add: dereddened1_def dereddened_def deredden_trial_fields load_trial_fields
      load_trial_d_tim worker0_fields copy_from_host_def ext0_def trials0_def)

lemma trial0_pspec:
  "pspec (accel_trial ext0 args1 0 (stats_trial ext0 dereddened0) 0) = [22, - 2]"
  using example_spectrum(2) by (simp add: cleaned0_def dereddened0_def dereddened_def worker0_def)

lemma trial1_pspec:
  "pspec (accel_trial ext0 args1 1 (stats_trial ext0 dereddened1) 0) = [16, 16]"
  by (simp add: accel_trial_spectra stats_trial_fields stats_trial_stats dereddened1_spectrum
      dereddened1_more)
    (simp add: ext0_def form_interpolated_def amp_sq_def normalise_def stats_mean_def)

lemma no_peaks_in_sums: "find_candidates_sums ext0 pf bw Ps = []"
  by (simp add: ext0_def)

lemma distill_Nil: "distill R [] = []"
  by (simp add: distill_def)

lemma distill_single: "distill R [c] = [c]"
  by (simp add: distill_def subsumed_def)

lemma trial0_cands: "dm_trial_cands (search_trial ext0 args1 0 dereddened0) = []"
proof -
  have a: "acc_list dereddened0 = [0]" by (rule dereddened0_fields)
  have f: "find_candidates ext0 \<lparr>pf_min_snr = 9, pf_min_freq = 1 / 10, pf_max_freq = 1100\<rparr>
             (1 / 2) [22, - 2] = []"
    by (simp add: ext0_def)
  show ?thesis
    by (simp add: search_trial_single [OF a] trial0_pspec dereddened0_more f no_peaks_in_sums
        SpectrumCandidates_def HarmonicDistiller_distill_def AccelerationDistiller_distill_def
        distill_Nil)
qed

lemma trial1_cands: "dm_trial_cands (search_trial ext0 args1 1 dereddened1) = [cand1]"
proof -
  have a: "acc_list dereddened1 = [0]" by (rule dereddened1_more)
  have f: "find_candidates ext0 \<lparr>pf_min_snr = 9, pf_min_freq = 1 / 10, pf_max_freq = 1100\<rparr>
             (1 / 2) [16, 16] = [(1 / 2, 16, 0)]"
    by (simp add: ext0_def)
  show ?thesis
    by (simp add: search_trial_single [OF a] trial1_pspec dereddened1_more f no_peaks_in_sums
        SpectrumCandidates_def HarmonicDistiller_distill_def AccelerationDistiller_distill_def
        distill_single cand1_def trials0_def)
qed

lemma collect0: "collect system0 = [cand1]"
  by (simp add: collect_def system0_threads trial0_cands trial1_cands)

lemma main_distill0: "main_distill args1 (collect system0) = [cand1]"
  by (simp add: collect0 main_distill_def HarmonicDistiller_distill_def DMDistiller_distill_def
      distill_single)

lemma bzap_logc [simp]: "bzap (logc c w) = bzap w"
  by (simp add: logc_def)

lemma system2_status: "map status (threads system2) = [Returned]"
  by (simp add: system2_def run_def launch_def system_step_def thread_step_def split_beta
      get_dm_trial_idx_def DMDispenser_new_def Let_def get_count_def
      process_dm_def zap_trial_def delete_zapper_def
      search_trial_fields deredden_trial_fields load_trial_fields Worker_setup_fields
      args2_def args1_def args0_def trials0_def)

lemma trial1_pspec_any:
  "pspec (accel_trial ext0 args1 1 (stats_trial ext0 dereddened1) a) = [16, 16]"
  by (simp add: accel_trial_spectra stats_trial_fields stats_trial_stats dereddened1_spectrum
      dereddened1_more)
    (simp add: ext0_def form_interpolated_def amp_sq_def normalise_def stats_mean_def)

lemma trial1_accel_cands:
  "accel_cands ext0 args1 1 (stats_trial ext0 dereddened1) 5 = [cand1\<lparr>acceleration := 5\<rparr>]"
proof -
  have f: "find_candidates ext0 \<lparr>pf_min_snr = 9, pf_min_freq = 1 / 10, pf_max_freq = 1100\<rparr>
             (1 / 2) [16, 16] = [(1 / 2, 16, 0)]"
    by (simp add: ext0_def)
  have g: "harm_finder (stats_trial ext0 w) = harm_finder w"
    "cand_finder (stats_trial ext0 w) = cand_finder w"
    "bin_width (stats_trial ext0 w) = bin_width w" for w
    by (simp_all add: stats_trial_def logc_def Let_def split_beta)
  show ?thesis
    by (simp add: accel_cands_def trial1_pspec_any g stats_trial_fields dereddened1_more f
        no_peaks_in_sums SpectrumCandidates_def HarmonicDistiller_distill_def distill_single
        cand1_def trials0_def)
qed

theorem candidates_carry_their_trial_witness:
  "process_dm ext0 args1 trials0 1 worker0 = Inr (search_trial ext0 args1 1 dereddened1)
   \<and> dm_trial_cands (search_trial ext0 args1 1 dereddened1) = dm_trial_cands worker0 @ [cand1]
   \<and> cand1 \<in> set (collect system0)
   \<and> cand1 \<in> set (main_distill args1 (collect system0))
   \<and> tagged ext0 trials0 cand1
   \<and> dm_trial_idx cand1 = 1 \<and> dm cand1 = get_dm (series trials0 ! 1)
   \<and> accel_cands ext0 args1 1 (stats_trial ext0 dereddened1) 5 = [cand1\<lparr>acceleration := 5\<rparr>]
   \<and> cand1\<lparr>acceleration := 5\<rparr> \<in> set (accel_cands ext0 args1 1 (stats_trial ext0 dereddened1) 5)
   \<and> acceleration (cand1\<lparr>acceleration := 5\<rparr>) = 5"
proof -
  have a: "cand1 \<in> set (collect system0)" by (simp add: collect0)
  have b: "cand1 \<in> set (main_distill args1 (collect system0))" by (simp add: main_distill0)
  have c: "dm_trial_cands (search_trial ext0 args1 1 dereddened1) = dm_trial_cands worker0 @ [cand1]"
    by (simp add: trial1_cands worker0_def Worker_setup_fields)
  from candidates_carry_their_trial [of ext0 args1 trials0 2 "[u0, u0]" "[1, 0, 0, 1]"] b
  have "tagged ext0 trials0 cand1"
    by (simp add: system0_def)
  moreover have "dm_trial_idx cand1 = 1 \<and> dm cand1 = get_dm (series trials0 ! 1)"
    by (simp add: cand1_def trials0_def)
  moreover have e: "cand1\<lparr>acceleration := 5\<rparr>
                      \<in> set (accel_cands ext0 args1 1 (stats_trial ext0 dereddened1) 5)"
    by (simp add: trial1_accel_cands)
  moreover from candidates_carry_their_trial [of ext0 args1 trials0 2 "[u0, u0]" "[1, 0, 0, 1]"]
  have "\<forall>c \<in> set (accel_cands ext0 args1 1 (stats_trial ext0 dereddened1) 5).
          dm_trial_idx c = 1 \<and> acceleration c = 5 \<and> dm c = get_dm (tim (stats_trial ext0 dereddened1))"
    by blast
  with e have "acceleration (cand1\<lparr>acceleration := 5\<rparr>) = 5" by blast
  ultimately show ?thesis
    using process_dm1 a b c trial1_accel_cands by blast
qed

theorem acceleration_distiller_tobs_witness:
  "threads system1 ! 0 \<in> set (threads system1)
   \<and> acc_still (worker (threads system1 ! 0))
       = \<lparr>ad_tobs = 2, ad_tol = 1 / 10000, ad_flag = True\<rparr>
   \<and> 2 \<noteq> get_nsamps trials1 \<and> get_tsamp trials1 \<noteq> 0
   \<and> ad_tobs (acc_still worker1) = 2
   \<and> ad_tobs (acc_still worker1) \<noteq> real (get_nsamps trials1) * get_tsamp trials1"
proof -
  have "length (threads system1) = 1"
    by (simp add: system1_def length_threads_run launch_fields)
  then have m: "threads system1 ! 0 \<in> set (threads system1)" by simp
  have h: "2 \<noteq> get_nsamps trials1" "get_tsamp trials1 \<noteq> 0"
    by (simp_all add: trials1_def)
  have v: "ad_tobs (acc_still worker1) = 2"
    by (simp add: worker1_def Worker_setup_fields trials1_def)
  from acceleration_distiller_tobs [of ext0 args0 trials1 2 "[u0]" "[0, 0]" u0] m h
  have "acc_still (worker (threads system1 ! 0))
          = \<lparr>ad_tobs = real 2 * get_tsamp trials1, ad_tol = freq_tol args0, ad_flag = True\<rparr>"
    and "ad_tobs (acc_still worker1) \<noteq> real (get_nsamps trials1) * get_tsamp trials1"
    by (simp_all add: system1_def worker1_def)
  then show ?thesis
    using m h v by (simp add: trials1_def args0_def)
qed

theorem zapper_used_only_when_initialised_witness:
  "threads system0 ! 0 \<in> set (threads system0) \<and> zapfilename args1 = []
   \<and> status (threads system0 ! 0) = Returned
   \<and> bzap (worker (threads system0 ! 0)) = Uninitialised
   \<and> filter is_zapper_use (calls (worker (threads system0 ! 0))) = []
   \<and> threads system2 ! 0 \<in> set (threads system2) \<and> zapfilename args2 \<noteq> []
   \<and> status (threads system2 ! 0) = Returned
   \<and> bzap (worker (threads system2 ! 0)) = Deleted"
proof -
  have m0: "threads system0 ! 0 \<in> set (threads system0)" and s0: "status (threads system0 ! 0) = Returned"
    by (simp_all add: system0_threads)
  have z0: "zapfilename args1 = []" by (simp add: args1_def args0_def)
  have "length (threads system2) = 1"
    by (simp add: system2_def length_threads_run launch_fields)
  then have m2: "threads system2 ! 0 \<in> set (threads system2)" by simp
  have z2: "zapfilename args2 \<noteq> []" by (simp add: args2_def)
  have s2: "status (threads system2 ! 0) = Returned"
    using system2_status \<open>length (threads system2) = 1\<close>
    by (cases "threads system2") simp_all
  from zapper_used_only_when_initialised [of ext0 args1 trials0 2 "[u0, u0]" "[1, 0, 0, 1]"] m0 z0
  have u: "bzap (worker (threads system0 ! 0)) = Uninitialised"
    "filter is_zapper_use (calls (worker (threads system0 ! 0))) = []"
    by (simp_all add: system0_def)
  from zapper_used_only_when_initialised [of ext0 args2 trials0 2 "[u0]" "[0, 0, 0]"] m2 z2 s2
  have "bzap (worker (threads system2 ! 0)) = Deleted"
    by (simp add: system2_def)
  with m0 z0 s0 u m2 z2 s2 show ?thesis by blast
qed

end
